theory Spec2Isabelle
  imports Complex_Main "HOL-Library.Monad_Syntax"
begin

section \<open>Python strings\<close>

text \<open>
  Header names and cell texts are modelled as \<^typ>\<open>string\<close>, one \<^typ>\<open>char\<close> per code point;
  the type holds the code points below 256. There \<^verbatim>\<open>str.isspace\<close> (and so \<^verbatim>\<open>str.strip\<close>)
  is true of TAB, LF, VT, FF, CR, the separators FS, GS, RS, US, the blank, NEL (133) and
  the no-break space (160); \<^verbatim>\<open>str.lower\<close> works code point by code point and moves
  \<^verbatim>\<open>A-Z\<close> and the capitals 192 to 222 other than the multiplication sign (215) up by 32.
\<close>

definition is_space :: "char \<Rightarrow> bool" where
  "is_space c =
     (let n = (of_char c :: nat)
      in (9 \<le> n \<and> n \<le> 13) \<or> (28 \<le> n \<and> n \<le> 32) \<or> n = 133 \<or> n = 160)"

definition py_strip :: "string \<Rightarrow> string" where
  "py_strip s = rev (dropWhile is_space (rev (dropWhile is_space s)))"

definition lower_char :: "char \<Rightarrow> char" where
  "lower_char c =
     (case map_of (zip ''ABCDEFGHIJKLMNOPQRSTUVWXYZ'' ''abcdefghijklmnopqrstuvwxyz'') c of
        Some l \<Rightarrow> l
      | None \<Rightarrow>
          (let n = (of_char c :: nat)
           in if 192 \<le> n \<and> n \<le> 222 \<and> n \<noteq> 215 then char_of (n + 32) else c))"

definition py_lower :: "string \<Rightarrow> string" where
  "py_lower s = map lower_char s"

section \<open>Column resolution\<close>

text \<open>
  \<^verbatim>\<open>find_col(df_cols, target)\<close>: the loop over the column names, skipping a \<^verbatim>\<open>None\<close>
  entry, returning the first name whose stripped, lower-cased text is the target's;
  \<^verbatim>\<open>None\<close> when the loop ends.
\<close>

fun find_col :: "string option list \<Rightarrow> string \<Rightarrow> string option" where
  "find_col [] target = None"
| "find_col (c # df_cols) target =
     (case c of
        None \<Rightarrow> find_col df_cols target
      | Some s \<Rightarrow>
          if py_lower (py_strip s) = py_lower (py_strip target) then Some s
          else find_col df_cols target)"

section \<open>Values, frames and the pandas operations the transform uses\<close>

text \<open>
  A cell is what a pandas column holds: \<open>NaN\<close> (the missing marker of an object or float column),
  \<open>NaT\<close> (the missing marker of a datetime column), a text, a number, or a timestamp (the
  nanoseconds since the epoch of \<^verbatim>\<open>datetime64[ns]\<close>). A number is kept as the exact decimal
  value of its text; rounding to binary64 is not modelled.
\<close>

datatype cell = NaN | NaT | Str string | Num rat | Ts int

datatype error = ValueError string | KeyError string | AttributeError string

text \<open>
  A frame is its column names and its rows. Labels may repeat (after line 321 two headers
  that differ in outer white space are one label). A position a row does not have reads
  as \<open>NaN\<close>, as \<^verbatim>\<open>read_csv\<close> fills a short line. The row index is not modelled
  (\<^verbatim>\<open>reset_index(drop=True)\<close> is the identity).
\<close>

record dataframe =
  columns :: "string list"
  rows :: "cell list list"

text \<open>
  The library functions whose results the transform only passes on are parameters:
  \<^verbatim>\<open>hashlib.sha1(b).hexdigest()\<close>, the date parser behind \<^verbatim>\<open>pd.to_datetime\<close> (it sees
  the whole column, from which it infers the layout, and the value to convert) and the
  text pandas gives a number or a timestamp (in the context of its column).
\<close>

record lib =
  sha1_hexdigest :: "string \<Rightarrow> string"
  parse_datetime :: "cell list \<Rightarrow> cell \<Rightarrow> int option"
  str_native :: "cell list \<Rightarrow> cell \<Rightarrow> string"

definition bind_result :: "error + 'a \<Rightarrow> ('a \<Rightarrow> error + 'b) \<Rightarrow> error + 'b" where
  "bind_result m f = (case m of Inl e \<Rightarrow> Inl e | Inr x \<Rightarrow> f x)"

text \<open>
  \<open>cell_at\<close> reads a row at the first column with the label; \<open>picked P\<close> are the values
  of a row at every column whose label satisfies \<open>P\<close>, in column order; \<open>assign\<close>
  writes a value at every column with the label and leaves the other positions.
\<close>

definition cell_at :: "string list \<Rightarrow> cell list \<Rightarrow> string \<Rightarrow> cell" where
  "cell_at cols r name = (case map_of (zip cols r) name of Some v \<Rightarrow> v | None \<Rightarrow> NaN)"

fun picked :: "(string \<Rightarrow> bool) \<Rightarrow> string list \<Rightarrow> cell list \<Rightarrow> cell list" where
  "picked P [] r = []"
| "picked P (c # cs) r =
     (if P c then [case r of [] \<Rightarrow> NaN | v # _ \<Rightarrow> v] else []) @ picked P cs (tl r)"

fun assign :: "string \<Rightarrow> cell \<Rightarrow> string list \<Rightarrow> cell list \<Rightarrow> cell list" where
  "assign name v [] r = []"
| "assign name v (c # cs) r =
     (if c = name then v else (case r of [] \<Rightarrow> NaN | x # _ \<Rightarrow> x)) # assign name v cs (tl r)"

text \<open>
  \<^verbatim>\<open>df[name]\<close>: \<^verbatim>\<open>KeyError\<close> for a label the frame lacks, the column as a series for a label
  that occurs once, and a frame for a label that occurs more than once.
\<close>

datatype item = Series "cell list" | Frame

definition getitem :: "dataframe \<Rightarrow> string \<Rightarrow> error + item" where
  "getitem df name =
     (if name \<notin> set (columns df) then Inl (KeyError name)
      else if count_list (columns df) name = 1
        then Inr (Series (map (\<lambda>r. cell_at (columns df) r name) (rows df)))
      else Inr Frame)"

text \<open>
  The statements of the transform that read \<^verbatim>\<open>df[name]\<close> need a series and raise on a
  frame; \<open>err\<close> is what the statement raises then.
\<close>

definition series :: "dataframe \<Rightarrow> string \<Rightarrow> error \<Rightarrow> error + cell list" where
  "series df name err =
     (case getitem df name of
        Inl e \<Rightarrow> Inl e
      | Inr (Series col) \<Rightarrow> Inr col
      | Inr Frame \<Rightarrow> Inl err)"

text \<open>
  \<^verbatim>\<open>df[name] = values\<close> with a series: replaces every column with the label, or appends
  the column when the label is new.
\<close>

definition setitem :: "dataframe \<Rightarrow> string \<Rightarrow> cell list \<Rightarrow> dataframe" where
  "setitem df name vals =
     (let cols' = (if name \<in> set (columns df) then columns df else columns df @ [name])
      in \<lparr>columns = cols',
          rows = map (\<lambda>(r, v). assign name v cols' r) (zip (rows df) vals)\<rparr>)"

text \<open>
  \<^verbatim>\<open>df[names]\<close>: the projection, in the order of the names; a label that occurs more than
  once in the frame brings all its columns.
\<close>

definition select :: "dataframe \<Rightarrow> string list \<Rightarrow> error + dataframe" where
  "select df names =
     (case filter (\<lambda>n. n \<notin> set (columns df)) names of
        [] \<Rightarrow> Inr \<lparr>columns = concat (map (\<lambda>n. filter (\<lambda>c. c = n) (columns df)) names),
                   rows = map (\<lambda>r. concat (map (\<lambda>n. picked (\<lambda>c. c = n) (columns df) r) names))
                            (rows df)\<rparr>
      | n # _ \<Rightarrow> Inl (KeyError n))"

text \<open>
  \<^verbatim>\<open>drop_duplicates(subset=...)\<close> with the default \<^verbatim>\<open>keep="first"\<close>: a row is dropped when
  an earlier row has the same values in the columns whose label is in the subset (all
  columns for \<^verbatim>\<open>None\<close>); pandas takes two missing values for equal there.
\<close>

fun keep_first :: "('a \<Rightarrow> 'k) \<Rightarrow> 'k list \<Rightarrow> 'a list \<Rightarrow> 'a list" where
  "keep_first key seen [] = []"
| "keep_first key seen (r # rs) =
     (if key r \<in> set seen then keep_first key seen rs
      else r # keep_first key (key r # seen) rs)"

definition drop_duplicates :: "dataframe \<Rightarrow> string list option \<Rightarrow> error + dataframe" where
  "drop_duplicates df ks_opt =
     (let ks = (case ks_opt of None \<Rightarrow> columns df | Some s \<Rightarrow> s)
      in case filter (\<lambda>n. n \<notin> set (columns df)) ks of
           [] \<Rightarrow> Inr (df\<lparr>rows := keep_first (picked (\<lambda>c. c \<in> set ks) (columns df)) [] (rows df)\<rparr>)
         | n # _ \<Rightarrow> Inl (KeyError n))"

fun isna :: "cell \<Rightarrow> bool" where
  "isna NaN = True"
| "isna NaT = True"
| "isna _ = False"

text \<open>\<^verbatim>\<open>dropna(subset=...)\<close>: drops the rows with a missing value in a column of the subset.\<close>

definition dropna :: "dataframe \<Rightarrow> string list \<Rightarrow> error + dataframe" where
  "dropna df ks =
     (case filter (\<lambda>n. n \<notin> set (columns df)) ks of
        [] \<Rightarrow> Inr (df\<lparr>rows := filter (\<lambda>r. \<not> (\<exists>v \<in> set (picked (\<lambda>c. c \<in> set ks) (columns df) r). isna v))
                                  (rows df)\<rparr>)
      | n # _ \<Rightarrow> Inl (KeyError n))"

text \<open>\<^verbatim>\<open>rename(columns=m)\<close>: a name the dictionary lacks stays.\<close>

definition rename :: "dataframe \<Rightarrow> (string \<rightharpoonup> string) \<Rightarrow> dataframe" where
  "rename df m = df\<lparr>columns := map (\<lambda>c. case m c of Some n \<Rightarrow> n | None \<Rightarrow> c) (columns df)\<rparr>"

text \<open>\<^verbatim>\<open>Series.astype(str)\<close>: a text stays, a missing value becomes \<^verbatim>\<open>nan\<close> or \<^verbatim>\<open>NaT\<close>.\<close>

definition astype_str :: "lib \<Rightarrow> cell list \<Rightarrow> string list" where
  "astype_str L col =
     map (\<lambda>v. case v of Str s \<Rightarrow> s | NaN \<Rightarrow> ''nan'' | NaT \<Rightarrow> ''NaT'' | _ \<Rightarrow> str_native L col v) col"

text \<open>
  \<^verbatim>\<open>pd.to_datetime(series, errors="coerce")\<close>: a timestamp stays, a missing value is \<open>NaT\<close>,
  any other value is parsed and is \<open>NaT\<close> when the parser fails.
\<close>

definition to_datetime :: "lib \<Rightarrow> cell list \<Rightarrow> cell list" where
  "to_datetime L col =
     map (\<lambda>v. case v of
                Ts t \<Rightarrow> Ts t
              | NaT \<Rightarrow> NaT
              | NaN \<Rightarrow> NaT
              | _ \<Rightarrow> (case parse_datetime L col v of Some t \<Rightarrow> Ts t | None \<Rightarrow> NaT)) col"

section \<open>Numeric coercion\<close>

text \<open>
  \<^verbatim>\<open>.str.replace(r"[^\d\.\-eE]", "", regex=True)\<close> keeps the digits, the point, the minus
  sign and the two exponent letters of every text.
\<close>

definition is_digit :: "char \<Rightarrow> bool" where
  "is_digit c = (let n = (of_char c :: nat) in 48 \<le> n \<and> n \<le> 57)"

definition keeps_numeric :: "char \<Rightarrow> bool" where
  "keeps_numeric c = (is_digit c \<or> c = CHR ''.'' \<or> c = CHR ''-'' \<or> c = CHR ''e'' \<or> c = CHR ''E'')"

definition str_replace_non_numeric :: "string list \<Rightarrow> string list" where
  "str_replace_non_numeric col = map (filter keeps_numeric) col"

text \<open>
  The number parser behind \<^verbatim>\<open>pd.to_numeric\<close>, on the texts the replacement leaves (no
  blank, no plus sign, no letter but \<^verbatim>\<open>e\<close> and \<^verbatim>\<open>E\<close>): an optional minus sign, digits
  with an optional point among them (at least one digit), and an optional exponent
  \<^verbatim>\<open>e\<close> or \<^verbatim>\<open>E\<close>, an optional minus sign and at least one digit; nothing may follow.
  The result is the decimal value of the text.
\<close>

definition digits_value :: "string \<Rightarrow> nat" where
  "digits_value ds = foldl (\<lambda>a c. 10 * a + (of_char c - 48)) 0 ds"

definition split_sign :: "string \<Rightarrow> bool \<times> string" where
  "split_sign s = (case s of [] \<Rightarrow> (False, s) | c # cs \<Rightarrow> if c = CHR ''-'' then (True, cs) else (False, s))"

definition to_double :: "string \<Rightarrow> rat option" where
  "to_double s =
     (let (neg, s1) = split_sign s;
          ip = takeWhile is_digit s1;
          s2 = dropWhile is_digit s1;
          (fp, s3) = (case s2 of
                        [] \<Rightarrow> ([], [])
                      | c # cs \<Rightarrow> if c = CHR ''.'' then (takeWhile is_digit cs, dropWhile is_digit cs)
                                  else ([], s2));
          m = of_nat (digits_value (ip @ fp)) / 10 ^ length fp;
          sm = (if neg then - m else m)
      in if ip @ fp = [] then None
         else case s3 of
                [] \<Rightarrow> Some sm
              | c # cs \<Rightarrow>
                  if c = CHR ''e'' \<or> c = CHR ''E'' then
                    (let (eneg, s4) = split_sign cs;
                         ed = takeWhile is_digit s4
                     in if ed = [] \<or> dropWhile is_digit s4 \<noteq> [] then None
                        else Some (if eneg then sm / 10 ^ digits_value ed
                                   else sm * 10 ^ digits_value ed))
                  else None)"

text \<open>\<^verbatim>\<open>pd.to_numeric(s, errors="coerce")\<close> on a series of texts.\<close>

definition to_numeric :: "string list \<Rightarrow> cell list" where
  "to_numeric col = map (\<lambda>s. case to_double s of Some x \<Rightarrow> Num x | None \<Rightarrow> NaN) col"

section \<open>The account identifier\<close>

text \<open>
  \<^verbatim>\<open>make_account_id\<close> receives Python values. \<^verbatim>\<open>x or ''\<close> is \<^verbatim>\<open>x\<close> when \<^verbatim>\<open>x\<close> is true
  (a text that is not empty, a number that is not zero, a float \<^verbatim>\<open>nan\<close>, a timestamp) and
  the empty text otherwise; the f-string then takes \<^verbatim>\<open>str\<close> of it. A text of the model is
  its own UTF-8 encoding.
\<close>

fun py_truthy :: "cell \<Rightarrow> bool" where
  "py_truthy (Str s) = (s \<noteq> [])"
| "py_truthy (Num x) = (x \<noteq> 0)"
| "py_truthy NaN = True"
| "py_truthy NaT = True"
| "py_truthy (Ts t) = True"

definition or_empty :: "cell \<Rightarrow> cell" where
  "or_empty v = (if py_truthy v then v else Str [])"

definition py_str :: "lib \<Rightarrow> cell \<Rightarrow> string" where
  "py_str L v = (case v of Str s \<Rightarrow> s | NaN \<Rightarrow> ''nan'' | NaT \<Rightarrow> ''NaT'' | _ \<Rightarrow> str_native L [v] v)"

definition account_id_base :: "lib \<Rightarrow> cell \<Rightarrow> cell \<Rightarrow> cell \<Rightarrow> string" where
  "account_id_base L customer_id account_type open_date =
     py_str L (or_empty customer_id) @ ''|'' @ py_str L (or_empty account_type) @ ''|'' @
     py_str L (or_empty open_date)"

definition make_account_id :: "lib \<Rightarrow> cell \<Rightarrow> cell \<Rightarrow> cell \<Rightarrow> string" where
  "make_account_id L customer_id account_type open_date =
     (let base = account_id_base L customer_id account_type open_date;
          h = take 12 (sha1_hexdigest L base)
      in ''ACC_'' @ h)"

section \<open>The transform\<close>

text \<open>The two fixed lists of logical columns that are coerced.\<close>

definition date_cols :: "string list" where
  "date_cols =
     [''Date Of Account Opening'', ''Last Transaction Date'', ''Transaction Date'',
      ''Approval/Rejection Date'', ''Payment Due Date'', ''Last Credit Card Payment Date'',
      ''Feedback Date'']"

definition numeric_cols :: "string list" where
  "numeric_cols =
     [''Account Balance'', ''Transaction Amount'', ''Account Balance After Transaction'',
      ''Loan Amount'', ''Interest Rate'', ''Credit Limit'', ''Credit Card Balance'',
      ''Minimum Payment Due'', ''Rewards Points'']"

text \<open>
  The loop \<^verbatim>\<open>for dc in date_cols\<close>: a resolved name that is true (not \<^verbatim>\<open>None\<close>, not
  empty) has its column replaced by the coerced one. On a frame (a repeated label)
  \<^verbatim>\<open>pd.to_datetime\<close> looks for year, month and day columns and raises.
\<close>

fun coerce_dates :: "lib \<Rightarrow> string option list \<Rightarrow> string list \<Rightarrow> dataframe \<Rightarrow> error + dataframe" where
  "coerce_dates L cols [] df = Inr df"
| "coerce_dates L cols (dc # dcs) df =
     (case find_col cols dc of
        None \<Rightarrow> coerce_dates L cols dcs df
      | Some actual \<Rightarrow>
          if actual \<noteq> [] then
            (case series df actual
                    (ValueError ''to assemble mappings requires at least that [year, month, day] be specified'') of
               Inl e \<Rightarrow> Inl e
             | Inr col \<Rightarrow> coerce_dates L cols dcs (setitem df actual (to_datetime L col)))
          else coerce_dates L cols dcs df)"

text \<open>The loop \<^verbatim>\<open>for nc in numeric_cols\<close>; a frame has no \<^verbatim>\<open>.str\<close> accessor.\<close>

fun coerce_numerics :: "lib \<Rightarrow> string option list \<Rightarrow> string list \<Rightarrow> dataframe \<Rightarrow> error + dataframe" where
  "coerce_numerics L cols [] df = Inr df"
| "coerce_numerics L cols (nc # ncs) df =
     (case find_col cols nc of
        None \<Rightarrow> coerce_numerics L cols ncs df
      | Some actual \<Rightarrow>
          if actual \<noteq> [] then
            (case series df actual (AttributeError ''DataFrame object has no attribute str'') of
               Inl e \<Rightarrow> Inl e
             | Inr col \<Rightarrow>
                 coerce_numerics L cols ncs
                   (setitem df actual (to_numeric (str_replace_non_numeric (astype_str L col)))))
          else coerce_numerics L cols ncs df)"

text \<open>
  \<^verbatim>\<open>r[name]\<close> on a row of the frame, as an argument of \<^verbatim>\<open>make_account_id\<close>: under a
  repeated label it is a series, and \<^verbatim>\<open>x or ''\<close> raises on a series.
\<close>

definition row_getitem :: "string list \<Rightarrow> cell list \<Rightarrow> string \<Rightarrow> error + cell" where
  "row_getitem cols r name =
     (if name \<notin> set cols then Inl (KeyError name)
      else if count_list cols name = 1 then Inr (cell_at cols r name)
      else Inl (ValueError ''The truth value of a Series is ambiguous''))"

text \<open>The function \<^verbatim>\<open>df.apply\<close> runs on every row (its arguments are read left to right).\<close>

definition account_id_row :: "lib \<Rightarrow> string option \<Rightarrow> string list \<Rightarrow> cell list \<Rightarrow> error + string" where
  "account_id_row L acct_type_col cols r =
     bind_result (row_getitem cols r ''__customer_id_str'') (\<lambda>customer_id.
     bind_result (case acct_type_col of
                    None \<Rightarrow> Inr (Str [])
                  | Some a \<Rightarrow> if a \<noteq> [] then row_getitem cols r a else Inr (Str [])) (\<lambda>account_type.
     bind_result (row_getitem cols r ''__account_open_date_str'') (\<lambda>open_date.
     Inr (make_account_id L customer_id account_type open_date))))"

fun traverse :: "('a \<Rightarrow> error + 'b) \<Rightarrow> 'a list \<Rightarrow> error + 'b list" where
  "traverse f [] = Inr []"
| "traverse f (x # xs) =
     (case f x of
        Inl e \<Rightarrow> Inl e
      | Inr y \<Rightarrow> (case traverse f xs of Inl e \<Rightarrow> Inl e | Inr ys \<Rightarrow> Inr (y # ys)))"

text \<open>
  \<^verbatim>\<open>df["AccountID"] = df.apply(..., axis=1)\<close>. On a frame without rows \<^verbatim>\<open>apply\<close> returns
  a copy of the frame, not a series, and pandas refuses to assign a frame of several
  columns to one column with a \<^verbatim>\<open>ValueError\<close> (the frame has at least the customer column
  and the two helper columns there).
\<close>

definition set_account_id :: "lib \<Rightarrow> string option \<Rightarrow> dataframe \<Rightarrow> error + dataframe" where
  "set_account_id L acct_type_col df =
     (if rows df = [] then
        Inl (ValueError ''Cannot set a DataFrame with multiple columns to the single column AccountID'')
      else bind_result (traverse (account_id_row L acct_type_col (columns df)) (rows df))
             (\<lambda>ids. Inr (setitem df ''AccountID'' (map Str ids))))"

text \<open>
  Lines 101 to 107: the two helper columns and the derived \<^verbatim>\<open>AccountID\<close> column. A frame
  of several columns cannot be assigned to one column.
\<close>

definition with_account_id ::
  "lib \<Rightarrow> string \<Rightarrow> string option \<Rightarrow> string option \<Rightarrow> dataframe \<Rightarrow> error + dataframe" where
  "with_account_id L cust_col acct_type_col open_date_col df =
     bind_result (case open_date_col of
                    None \<Rightarrow> Inr (replicate (length (rows df)) [])
                  | Some d \<Rightarrow>
                      if d \<noteq> [] then
                        bind_result
                          (series df d
                             (ValueError ''Cannot set a DataFrame with multiple columns to the single column __account_open_date_str''))
                          (\<lambda>col. Inr (astype_str L col))
                      else Inr (replicate (length (rows df)) [])) (\<lambda>open_date_str.
     let df1 = setitem df ''__account_open_date_str'' (map Str open_date_str) in
     bind_result
       (series df1 cust_col
          (ValueError ''Cannot set a DataFrame with multiple columns to the single column __customer_id_str''))
       (\<lambda>col.
     let df2 = setitem df1 ''__customer_id_str'' (map Str (astype_str L col)) in
     set_account_id L acct_type_col df2))"

text \<open>
  \<^verbatim>\<open>[col for col in xs if col is not None]\<close>, the entry \<^verbatim>\<open>if c(name): m[c(name)] = new\<close> of
  a rename dictionary, and the optional identifier column put first (\<^verbatim>\<open>if id_col: cols.append(id_col)\<close>).
\<close>

primrec not_none :: "'a option list \<Rightarrow> 'a list" where
  "not_none [] = []"
| "not_none (x # xs) = (case x of None \<Rightarrow> not_none xs | Some y \<Rightarrow> y # not_none xs)"

definition put_if :: "string option \<Rightarrow> string \<Rightarrow> (string \<rightharpoonup> string) \<Rightarrow> (string \<rightharpoonup> string)" where
  "put_if col new m = (case col of None \<Rightarrow> m | Some a \<Rightarrow> if a \<noteq> [] then m(a \<mapsto> new) else m)"

definition append_if :: "string option \<Rightarrow> string option list" where
  "append_if col = (case col of None \<Rightarrow> [] | Some a \<Rightarrow> if a \<noteq> [] then [Some a] else [])"

text \<open>\<^verbatim>\<open>subset=[id_col] if id_col else None\<close>.\<close>

definition subset_if :: "string option \<Rightarrow> string list option" where
  "subset_if col = (case col of None \<Rightarrow> None | Some a \<Rightarrow> if a \<noteq> [] then Some [a] else None)"

text \<open>
  The tables. \<open>c\<close> is the resolver over the column names the frame had on entry,
  \<open>cust_col\<close> the resolved customer column, \<open>df\<close> the frame with the coerced columns and
  the \<^verbatim>\<open>AccountID\<close> column. Each table has its list of projected names and its rename
  dictionary (the local variables of the source) as definitions of their own.
\<close>

definition customers_cols :: "(string \<Rightarrow> string option) \<Rightarrow> string \<Rightarrow> string list" where
  "customers_cols c cust_col =
     not_none [Some cust_col, c ''First Name'', c ''Last Name'', c ''Age'', c ''Gender'',
               c ''Address'', c ''City'', c ''Contact Number'', c ''Email'']"

definition customers_table :: "(string \<Rightarrow> string option) \<Rightarrow> string \<Rightarrow> dataframe \<Rightarrow> error + dataframe" where
  "customers_table c cust_col df =
     bind_result (select df (customers_cols c cust_col)) (\<lambda>t.
     bind_result (drop_duplicates t (Some [cust_col])) (\<lambda>customers.
     Inr (rename customers (Map.empty(cust_col \<mapsto> ''CustomerID'')))))"

definition accounts_cols ::
  "(string \<Rightarrow> string option) \<Rightarrow> string \<Rightarrow> string option \<Rightarrow> string option \<Rightarrow> string list" where
  "accounts_cols c cust_col acct_type_col open_date_col =
     not_none [Some ''AccountID'', Some cust_col, acct_type_col, c ''Account Balance'',
               open_date_col, c ''Last Transaction Date'', c ''Branch ID'']"

definition rename_map ::
  "(string \<Rightarrow> string option) \<Rightarrow> string \<Rightarrow> string option \<Rightarrow> string option \<Rightarrow> (string \<rightharpoonup> string)" where
  "rename_map c cust_col acct_type_col open_date_col =
     put_if (c ''Branch ID'') ''BranchID''
       (put_if (c ''Account Balance'') ''AccountBalance''
         (put_if (c ''Last Transaction Date'') ''LastTransactionDate''
           (put_if open_date_col ''DateOfAccountOpening''
             (put_if acct_type_col ''AccountType''
               (put_if (Some cust_col) ''CustomerID'' Map.empty)))))"

definition accounts_table ::
  "(string \<Rightarrow> string option) \<Rightarrow> string \<Rightarrow> string option \<Rightarrow> string option \<Rightarrow> dataframe \<Rightarrow> error + dataframe" where
  "accounts_table c cust_col acct_type_col open_date_col df =
     bind_result (select df (accounts_cols c cust_col acct_type_col open_date_col)) (\<lambda>t.
     bind_result (drop_duplicates t (Some [''AccountID''])) (\<lambda>accounts.
     Inr (rename accounts (rename_map c cust_col acct_type_col open_date_col))))"

definition transactions_cols :: "(string \<Rightarrow> string option) \<Rightarrow> string list" where
  "transactions_cols c =
     not_none (append_if (c ''TransactionID'') @
               [Some ''AccountID'', c ''Transaction Date'', c ''Transaction Type'',
                c ''Transaction Amount'', c ''Account Balance After Transaction'',
                c ''Branch ID''])"

definition tx_rename :: "(string \<Rightarrow> string option) \<Rightarrow> (string \<rightharpoonup> string)" where
  "tx_rename c =
     put_if (c ''Branch ID'') ''BranchID''
       (put_if (c ''Account Balance After Transaction'') ''AccountBalanceAfterTransaction''
         (put_if (c ''Transaction Amount'') ''TransactionAmount''
           (put_if (c ''Transaction Type'') ''TransactionType''
             (put_if (c ''Transaction Date'') ''TransactionDate''
               (put_if (c ''TransactionID'') ''TransactionID'' Map.empty)))))"

definition transactions_table :: "(string \<Rightarrow> string option) \<Rightarrow> dataframe \<Rightarrow> error + dataframe" where
  "transactions_table c df =
     bind_result (select df (transactions_cols c)) (\<lambda>t.
     let transactions = rename t (tx_rename c)
     in if ''TransactionID'' \<in> set (columns transactions)
        then drop_duplicates transactions (Some [''TransactionID''])
        else Inr transactions)"

definition loans_cols :: "(string \<Rightarrow> string option) \<Rightarrow> string \<Rightarrow> string list" where
  "loans_cols c cust_col =
     not_none (append_if (c ''Loan ID'') @
               [Some cust_col, c ''Loan Amount'', c ''Loan Type'', c ''Interest Rate'',
                c ''Loan Term'', c ''Approval/Rejection Date'', c ''Loan Status'',
                c ''Branch ID''])"

definition loan_rename :: "(string \<Rightarrow> string option) \<Rightarrow> string \<Rightarrow> (string \<rightharpoonup> string)" where
  "loan_rename c cust_col =
     put_if (c ''Branch ID'') ''BranchID''
       (put_if (c ''Loan Status'') ''LoanStatus''
         (put_if (c ''Approval/Rejection Date'') ''ApprovalRejectionDate''
           (put_if (c ''Loan Term'') ''LoanTerm''
             (put_if (c ''Interest Rate'') ''InterestRate''
               (put_if (c ''Loan Type'') ''LoanType''
                 (put_if (c ''Loan Amount'') ''LoanAmount''
                   (put_if (Some cust_col) ''CustomerID''
                     (put_if (c ''Loan ID'') ''LoanID'' Map.empty))))))))"

definition loans_table :: "(string \<Rightarrow> string option) \<Rightarrow> string \<Rightarrow> dataframe \<Rightarrow> error + dataframe" where
  "loans_table c cust_col df =
     bind_result (select df (loans_cols c cust_col)) (\<lambda>t.
     bind_result (drop_duplicates t (subset_if (c ''Loan ID''))) (\<lambda>loans.
     Inr (rename loans (loan_rename c cust_col))))"

definition cards_cols :: "(string \<Rightarrow> string option) \<Rightarrow> string \<Rightarrow> string list" where
  "cards_cols c cust_col =
     not_none (append_if (c ''CardID'') @
               [Some cust_col, c ''Card Type'', c ''Credit Limit'', c ''Credit Card Balance'',
                c ''Minimum Payment Due'', c ''Payment Due Date'',
                c ''Last Credit Card Payment Date'', c ''Rewards Points''])"

definition card_rename :: "(string \<Rightarrow> string option) \<Rightarrow> string \<Rightarrow> (string \<rightharpoonup> string)" where
  "card_rename c cust_col =
     put_if (c ''Rewards Points'') ''RewardsPoints''
       (put_if (c ''Last Credit Card Payment Date'') ''LastCreditCardPaymentDate''
         (put_if (c ''Payment Due Date'') ''PaymentDueDate''
           (put_if (c ''Minimum Payment Due'') ''MinimumPaymentDue''
             (put_if (c ''Credit Card Balance'') ''CreditCardBalance''
               (put_if (c ''Credit Limit'') ''CreditLimit''
                 (put_if (c ''Card Type'') ''CardType''
                   (put_if (Some cust_col) ''CustomerID''
                     (put_if (c ''CardID'') ''CardID'' Map.empty))))))))"

definition cards_table :: "(string \<Rightarrow> string option) \<Rightarrow> string \<Rightarrow> dataframe \<Rightarrow> error + dataframe" where
  "cards_table c cust_col df =
     bind_result (select df (cards_cols c cust_col)) (\<lambda>t.
     bind_result (drop_duplicates t (subset_if (c ''CardID''))) (\<lambda>cards.
     Inr (rename cards (card_rename c cust_col))))"

definition feedback_cols :: "(string \<Rightarrow> string option) \<Rightarrow> string \<Rightarrow> string list" where
  "feedback_cols c cust_col =
     not_none (append_if (c ''Feedback ID'') @
               [Some cust_col, c ''Feedback Date'', c ''Feedback Type'',
                c ''Resolution Status'', c ''Resolution Date''])"

definition fb_rename :: "(string \<Rightarrow> string option) \<Rightarrow> string \<Rightarrow> (string \<rightharpoonup> string)" where
  "fb_rename c cust_col =
     put_if (c ''Resolution Date'') ''ResolutionDate''
       (put_if (c ''Resolution Status'') ''ResolutionStatus''
         (put_if (c ''Feedback Type'') ''FeedbackType''
           (put_if (c ''Feedback Date'') ''FeedbackDate''
             (put_if (Some cust_col) ''CustomerID''
               (put_if (c ''Feedback ID'') ''FeedbackID'' Map.empty)))))"

definition feedback_table :: "(string \<Rightarrow> string option) \<Rightarrow> string \<Rightarrow> dataframe \<Rightarrow> error + dataframe" where
  "feedback_table c cust_col df =
     bind_result (select df (feedback_cols c cust_col)) (\<lambda>t.
     bind_result (drop_duplicates t (subset_if (c ''Feedback ID''))) (\<lambda>feedback.
     Inr (rename feedback (fb_rename c cust_col))))"

definition branches_table :: "(string \<Rightarrow> string option) \<Rightarrow> dataframe \<Rightarrow> error + dataframe" where
  "branches_table c df =
     (case append_if (c ''Branch ID'') of
        Some branch_col # _ \<Rightarrow>
          bind_result (select df [branch_col]) (\<lambda>t.
          bind_result (drop_duplicates t None) (\<lambda>branches.
          Inr (rename branches (Map.empty(branch_col \<mapsto> ''BranchID'')))))
      | _ \<Rightarrow> Inr \<lparr>columns = [''BranchID''], rows = []\<rparr>)"

definition anomalies_table :: "(string \<Rightarrow> string option) \<Rightarrow> string \<Rightarrow> dataframe \<Rightarrow> error + dataframe" where
  "anomalies_table c cust_col df =
     (case c ''Anomaly'' of
        None \<Rightarrow> Inr \<lparr>columns = [''CustomerID'', ''Anomaly''], rows = []\<rparr>
      | Some anomaly_col \<Rightarrow>
          if anomaly_col \<in> set (columns df) then
            bind_result (select df [cust_col, anomaly_col]) (\<lambda>t.
            bind_result (dropna t [anomaly_col]) (\<lambda>t.
            bind_result (drop_duplicates t None) (\<lambda>anomalies.
            Inr (rename anomalies (Map.empty(cust_col \<mapsto> ''CustomerID'', anomaly_col \<mapsto> ''Anomaly''))))))
          else Inr \<lparr>columns = [''CustomerID'', ''Anomaly''], rows = []\<rparr>)"

text \<open>
  The data dictionary: \<^verbatim>\<open>pd.DataFrame(dd_rows)\<close> on a list of dictionaries has the keys in
  the order of their first appearance as columns, and \<open>NaN\<close> where a dictionary lacks a key.
\<close>

definition from_records :: "(string \<times> string) list list \<Rightarrow> dataframe" where
  "from_records recs =
     (let cols = rev (remdups (rev (concat (map (map fst) recs))))
      in \<lparr>columns = cols,
          rows = map (\<lambda>rec. map (\<lambda>k. case map_of rec k of Some v \<Rightarrow> Str v | None \<Rightarrow> NaN) cols) recs\<rparr>)"

definition dd_rows :: "(string \<times> string) list list" where
  "dd_rows =
     [[(''Table'', ''Customers''), (''PrimaryKey'', ''CustomerID''), (''Notes'', ''Customer master data'')],
      [(''Table'', ''Accounts''), (''PrimaryKey'', ''AccountID''), (''ForeignKeys'', ''CustomerID''),
       (''Notes'', ''One or more accounts per customer'')],
      [(''Table'', ''Transactions''), (''PrimaryKey'', ''TransactionID (may be null)''),
       (''ForeignKeys'', ''AccountID, BranchID''), (''Notes'', ''Transaction records'')],
      [(''Table'', ''Loans''), (''PrimaryKey'', ''LoanID''), (''ForeignKeys'', ''CustomerID, BranchID''),
       (''Notes'', ''Loan records if present'')],
      [(''Table'', ''Cards''), (''PrimaryKey'', ''CardID''), (''ForeignKeys'', ''CustomerID''),
       (''Notes'', ''Credit card records'')],
      [(''Table'', ''Feedback''), (''PrimaryKey'', ''FeedbackID''), (''ForeignKeys'', ''CustomerID''),
       (''Notes'', ''Customer feedback'')],
      [(''Table'', ''Branches''), (''PrimaryKey'', ''BranchID''), (''Notes'', ''Branch identifiers'')],
      [(''Table'', ''Anomalies''), (''PrimaryKey'', []), (''ForeignKeys'', ''CustomerID''),
       (''Notes'', ''Rows flagged as anomalies (if any)'')]]"

definition data_dictionary :: dataframe where
  "data_dictionary = from_records dd_rows"

text \<open>
  \<^verbatim>\<open>build_relational_sheets\<close>. The result is the dictionary \<^verbatim>\<open>sheets\<close> in insertion order;
  the \<^verbatim>\<open>ValueError\<close> of line 99 is raised after both coercion loops.
\<close>

definition build_relational_sheets :: "lib \<Rightarrow> dataframe \<Rightarrow> error + (string \<times> dataframe) list" where
  "build_relational_sheets L df0 =
     (let cols = map Some (columns df0);
          c = find_col cols
      in bind_result (coerce_dates L cols date_cols df0) (\<lambda>df1.
         bind_result (coerce_numerics L cols numeric_cols df1) (\<lambda>df2.
         let acct_type_col = c ''Account Type'';
             open_date_col = c ''Date Of Account Opening''
         in case c ''Customer ID'' of
              None \<Rightarrow>
                Inl (ValueError ''Input CSV does not contain a 'Customer ID' column (case-insensitive match).'')
            | Some cust_col \<Rightarrow>
                bind_result (with_account_id L cust_col acct_type_col open_date_col df2) (\<lambda>df.
                bind_result (customers_table c cust_col df) (\<lambda>customers.
                bind_result (accounts_table c cust_col acct_type_col open_date_col df) (\<lambda>accounts.
                bind_result (transactions_table c df) (\<lambda>transactions.
                bind_result (loans_table c cust_col df) (\<lambda>loans.
                bind_result (cards_table c cust_col df) (\<lambda>cards.
                bind_result (feedback_table c cust_col df) (\<lambda>feedback.
                bind_result (branches_table c df) (\<lambda>branches.
                bind_result (anomalies_table c cust_col df) (\<lambda>anomalies.
                Inr [(''Customers'', customers), (''Accounts'', accounts),
                     (''Transactions'', transactions), (''Loans'', loans), (''Cards'', cards),
                     (''Feedback'', feedback), (''Branches'', branches),
                     (''Anomalies'', anomalies), (''DataDictionary'', data_dictionary)]))))))))))))"

section \<open>Views of a frame used in the statements\<close>

text \<open>
  The values of one column in row order, and the rows read through a list of names.
  \<open>resolved cols ts\<close> are the names the loop over the targets \<open>ts\<close> coerces;
  \<open>numeric_coerce\<close> is the right-hand side of line 91 and 92 on one column.
\<close>

definition column :: "dataframe \<Rightarrow> string \<Rightarrow> cell list" where
  "column df name = map (\<lambda>r. cell_at (columns df) r name) (rows df)"

definition row_view :: "dataframe \<Rightarrow> string list \<Rightarrow> cell list list" where
  "row_view df names = map (\<lambda>r. map (cell_at (columns df) r) names) (rows df)"

definition resolved :: "string option list \<Rightarrow> string list \<Rightarrow> string set" where
  "resolved cols ts = {a. a \<noteq> [] \<and> (\<exists>t \<in> set ts. find_col cols t = Some a)}"

definition numeric_coerce :: "lib \<Rightarrow> cell list \<Rightarrow> cell list" where
  "numeric_coerce L col = to_numeric (str_replace_non_numeric (astype_str L col))"

text \<open>
  The three arguments \<^verbatim>\<open>make_account_id\<close> receives, column by column: the texts of the
  customer column, the account types (empty texts without the column) and the texts of
  the opening dates (empty texts without the column).
\<close>

definition acct_type_values :: "dataframe \<Rightarrow> string option \<Rightarrow> cell list" where
  "acct_type_values df acct_type_col =
     (case acct_type_col of
        None \<Rightarrow> replicate (length (rows df)) (Str [])
      | Some a \<Rightarrow> if a \<noteq> [] then column df a else replicate (length (rows df)) (Str []))"

definition open_date_strs :: "lib \<Rightarrow> dataframe \<Rightarrow> string option \<Rightarrow> string list" where
  "open_date_strs L df open_date_col =
     (case open_date_col of
        None \<Rightarrow> replicate (length (rows df)) []
      | Some d \<Rightarrow> if d \<noteq> [] then astype_str L (column df d) else replicate (length (rows df)) [])"

definition account_ids :: "lib \<Rightarrow> string list \<Rightarrow> cell list \<Rightarrow> string list \<Rightarrow> string list" where
  "account_ids L cust_strs acct_types date_strs =
     map (\<lambda>(c, a, d). make_account_id L (Str c) a (Str d)) (zip cust_strs (zip acct_types date_strs))"

definition helper_names :: "string set" where
  "helper_names = {''__account_open_date_str'', ''__customer_id_str'', ''AccountID''}"

text \<open>
  More views: the renamed column list of \<^verbatim>\<open>rename\<close>, one row read through a list of names,
  the facts the tables need of the frame they read (its labels are distinct, every
  resolved name is a column and has its target's key; the \<^verbatim>\<open>AccountID\<close> column is there), and the values of a column
  after both coercion loops.
\<close>

definition renamed :: "(string \<rightharpoonup> string) \<Rightarrow> string list \<Rightarrow> string list" where
  "renamed m names = map (\<lambda>c. case m c of Some n \<Rightarrow> n | None \<Rightarrow> c) names"

definition project :: "dataframe \<Rightarrow> string list \<Rightarrow> cell list \<Rightarrow> cell list" where
  "project df names r = map (cell_at (columns df) r) names"

definition prepared :: "(string \<Rightarrow> string option) \<Rightarrow> dataframe \<Rightarrow> bool" where
  "prepared c df \<longleftrightarrow>
     distinct (columns df) \<and>
     (\<forall>t a. c t = Some a \<longrightarrow>
        a \<in> set (columns df) \<and> py_lower (py_strip a) = py_lower (py_strip t)) \<and>
     ''AccountID'' \<in> set (columns df)"

definition coerced :: "lib \<Rightarrow> dataframe \<Rightarrow> string \<Rightarrow> cell list" where
  "coerced L df0 n =
     (if n \<in> resolved (map Some (columns df0)) date_cols then to_datetime L (column df0 n)
      else if n \<in> resolved (map Some (columns df0)) numeric_cols then numeric_coerce L (column df0 n)
      else column df0 n)"






section \<open>The command\<close>


section \<open>Properties of the column resolver\<close>

text \<open>The two character functions on the characters of the logical column names.\<close>

lemma lower_char_table:
  "lower_char CHR ''A'' = CHR ''a'' \<and>
   lower_char CHR ''B'' = CHR ''b'' \<and>
   lower_char CHR ''C'' = CHR ''c'' \<and>
   lower_char CHR ''D'' = CHR ''d'' \<and>
   lower_char CHR ''E'' = CHR ''e'' \<and>
   lower_char CHR ''F'' = CHR ''f'' \<and>
   lower_char CHR ''G'' = CHR ''g'' \<and>
   lower_char CHR ''H'' = CHR ''h'' \<and>
   lower_char CHR ''I'' = CHR ''i'' \<and>
   lower_char CHR ''J'' = CHR ''j'' \<and>
   lower_char CHR ''K'' = CHR ''k'' \<and>
   lower_char CHR ''L'' = CHR ''l'' \<and>
   lower_char CHR ''M'' = CHR ''m'' \<and>
   lower_char CHR ''N'' = CHR ''n'' \<and>
   lower_char CHR ''O'' = CHR ''o'' \<and>
   lower_char CHR ''P'' = CHR ''p'' \<and>
   lower_char CHR ''Q'' = CHR ''q'' \<and>
   lower_char CHR ''R'' = CHR ''r'' \<and>
   lower_char CHR ''S'' = CHR ''s'' \<and>
   lower_char CHR ''T'' = CHR ''t'' \<and>
   lower_char CHR ''U'' = CHR ''u'' \<and>
   lower_char CHR ''V'' = CHR ''v'' \<and>
   lower_char CHR ''W'' = CHR ''w'' \<and>
   lower_char CHR ''X'' = CHR ''x'' \<and>
   lower_char CHR ''Y'' = CHR ''y'' \<and>
   lower_char CHR ''Z'' = CHR ''z'' \<and>
   lower_char CHR ''a'' = CHR ''a'' \<and>
   lower_char CHR ''b'' = CHR ''b'' \<and>
   lower_char CHR ''c'' = CHR ''c'' \<and>
   lower_char CHR ''d'' = CHR ''d'' \<and>
   lower_char CHR ''e'' = CHR ''e'' \<and>
   lower_char CHR ''f'' = CHR ''f'' \<and>
   lower_char CHR ''g'' = CHR ''g'' \<and>
   lower_char CHR ''h'' = CHR ''h'' \<and>
   lower_char CHR ''i'' = CHR ''i'' \<and>
   lower_char CHR ''j'' = CHR ''j'' \<and>
   lower_char CHR ''k'' = CHR ''k'' \<and>
   lower_char CHR ''l'' = CHR ''l'' \<and>
   lower_char CHR ''m'' = CHR ''m'' \<and>
   lower_char CHR ''n'' = CHR ''n'' \<and>
   lower_char CHR ''o'' = CHR ''o'' \<and>
   lower_char CHR ''p'' = CHR ''p'' \<and>
   lower_char CHR ''q'' = CHR ''q'' \<and>
   lower_char CHR ''r'' = CHR ''r'' \<and>
   lower_char CHR ''s'' = CHR ''s'' \<and>
   lower_char CHR ''t'' = CHR ''t'' \<and>
   lower_char CHR ''u'' = CHR ''u'' \<and>
   lower_char CHR ''v'' = CHR ''v'' \<and>
   lower_char CHR ''w'' = CHR ''w'' \<and>
   lower_char CHR ''x'' = CHR ''x'' \<and>
   lower_char CHR ''y'' = CHR ''y'' \<and>
   lower_char CHR ''z'' = CHR ''z'' \<and>
   lower_char CHR '' '' = CHR '' '' \<and>
   lower_char CHR ''/'' = CHR ''/'' \<and>
   lower_char CHR ''_'' = CHR ''_''"
  by (simp add: lower_char_def)

lemma is_space_table:
  "\<not> is_space CHR ''A'' \<and>
   \<not> is_space CHR ''B'' \<and>
   \<not> is_space CHR ''C'' \<and>
   \<not> is_space CHR ''D'' \<and>
   \<not> is_space CHR ''E'' \<and>
   \<not> is_space CHR ''F'' \<and>
   \<not> is_space CHR ''G'' \<and>
   \<not> is_space CHR ''H'' \<and>
   \<not> is_space CHR ''I'' \<and>
   \<not> is_space CHR ''J'' \<and>
   \<not> is_space CHR ''K'' \<and>
   \<not> is_space CHR ''L'' \<and>
   \<not> is_space CHR ''M'' \<and>
   \<not> is_space CHR ''N'' \<and>
   \<not> is_space CHR ''O'' \<and>
   \<not> is_space CHR ''P'' \<and>
   \<not> is_space CHR ''Q'' \<and>
   \<not> is_space CHR ''R'' \<and>
   \<not> is_space CHR ''S'' \<and>
   \<not> is_space CHR ''T'' \<and>
   \<not> is_space CHR ''U'' \<and>
   \<not> is_space CHR ''V'' \<and>
   \<not> is_space CHR ''W'' \<and>
   \<not> is_space CHR ''X'' \<and>
   \<not> is_space CHR ''Y'' \<and>
   \<not> is_space CHR ''Z'' \<and>
   \<not> is_space CHR ''a'' \<and>
   \<not> is_space CHR ''b'' \<and>
   \<not> is_space CHR ''c'' \<and>
   \<not> is_space CHR ''d'' \<and>
   \<not> is_space CHR ''e'' \<and>
   \<not> is_space CHR ''f'' \<and>
   \<not> is_space CHR ''g'' \<and>
   \<not> is_space CHR ''h'' \<and>
   \<not> is_space CHR ''i'' \<and>
   \<not> is_space CHR ''j'' \<and>
   \<not> is_space CHR ''k'' \<and>
   \<not> is_space CHR ''l'' \<and>
   \<not> is_space CHR ''m'' \<and>
   \<not> is_space CHR ''n'' \<and>
   \<not> is_space CHR ''o'' \<and>
   \<not> is_space CHR ''p'' \<and>
   \<not> is_space CHR ''q'' \<and>
   \<not> is_space CHR ''r'' \<and>
   \<not> is_space CHR ''s'' \<and>
   \<not> is_space CHR ''t'' \<and>
   \<not> is_space CHR ''u'' \<and>
   \<not> is_space CHR ''v'' \<and>
   \<not> is_space CHR ''w'' \<and>
   \<not> is_space CHR ''x'' \<and>
   \<not> is_space CHR ''y'' \<and>
   \<not> is_space CHR ''z'' \<and>
   is_space CHR '' '' \<and>
   \<not> is_space CHR ''/'' \<and>
   \<not> is_space CHR ''_''"
  by (simp add: is_space_def)

lemmas string_defs = py_lower_def py_strip_def is_space_table lower_char_table

lemma find_col_None_iff:
  "find_col cols t = None \<longleftrightarrow>
     (\<forall>s. Some s \<in> set cols \<longrightarrow> py_lower (py_strip s) \<noteq> py_lower (py_strip t))"
  by (induction cols) (auto split: option.splits)

lemma find_col_Some_iff:
  "find_col cols t = Some s \<longleftrightarrow>
     (\<exists>i<length cols. cols ! i = Some s \<and> py_lower (py_strip s) = py_lower (py_strip t) \<and>
        (\<forall>j<i. \<forall>s'. cols ! j = Some s' \<longrightarrow> py_lower (py_strip s') \<noteq> py_lower (py_strip t)))"
    (is "?L cols \<longleftrightarrow> ?R cols")
proof (induction cols)
  case Nil
  show ?case by simp
next
  case (Cons c cols)
  let ?m = "\<lambda>x. py_lower (py_strip x) = py_lower (py_strip t)"
  show ?case
  proof (cases "\<exists>x. c = Some x \<and> ?m x")
    case True
    then obtain x where x: "c = Some x" "?m x" by blast
    have "?R (c # cols) \<longleftrightarrow> s = x"
    proof
      assume "?R (c # cols)"
      then obtain i where i: "i < length (c # cols)" "(c # cols) ! i = Some s"
        "\<forall>j<i. \<forall>s'. (c # cols) ! j = Some s' \<longrightarrow> \<not> ?m s'" by blast
      have "i = 0"
      proof (rule ccontr)
        assume "i \<noteq> 0"
        then have "0 < i" by simp
        with i(3) x show False by auto
      qed
      with i(2) x show "s = x" by simp
    next
      assume "s = x"
      with x show "?R (c # cols)" by (intro exI[of _ 0]) simp
    qed
    with x show ?thesis by auto
  next
    case False
    then have step: "find_col (c # cols) t = find_col cols t"
      by (auto split: option.splits)
    have "?R (c # cols) \<longleftrightarrow> ?R cols"
    proof
      assume "?R (c # cols)"
      then obtain i where i: "i < length (c # cols)" "(c # cols) ! i = Some s" "?m s"
        "\<forall>j<i. \<forall>s'. (c # cols) ! j = Some s' \<longrightarrow> \<not> ?m s'" by blast
      from i(2,3) False obtain k where k: "i = Suc k" by (cases i) auto
      with i have "k < length cols" "cols ! k = Some s" by auto
      moreover have "\<forall>j<k. \<forall>s'. cols ! j = Some s' \<longrightarrow> \<not> ?m s'"
        using i(4) k by (metis Suc_less_eq nth_Cons_Suc)
      ultimately show "?R cols" using i(3) by blast
    next
      assume "?R cols"
      then obtain i where i: "i < length cols" "cols ! i = Some s" "?m s"
        "\<forall>j<i. \<forall>s'. cols ! j = Some s' \<longrightarrow> \<not> ?m s'" by blast
      have "\<forall>j<Suc i. \<forall>s'. (c # cols) ! j = Some s' \<longrightarrow> \<not> ?m s'"
      proof (intro allI impI)
        fix j s' assume "j < Suc i" "(c # cols) ! j = Some s'"
        then show "\<not> ?m s'" using False i(4) by (cases j) auto
      qed
      with i show "?R (c # cols)" by (intro exI[of _ "Suc i"]) simp
    qed
    with step Cons.IH show ?thesis by simp
  qed
qed

text \<open>
  C4. For every list of column names and every target, \<open>find_col\<close> returns the first name
  (in column order) whose stripped, lower-cased text equals the stripped, lower-cased
  target, and returns \<open>None\<close>, never an error, exactly when no name matches. With several
  matching names the result is the one at the least position.
\<close>

theorem find_col_first_match:
  "(find_col cols t = None \<longleftrightarrow>
      (\<forall>s. Some s \<in> set cols \<longrightarrow> py_lower (py_strip s) \<noteq> py_lower (py_strip t))) \<and>
   (find_col cols t = Some s \<longleftrightarrow>
      (\<exists>i<length cols. cols ! i = Some s \<and> py_lower (py_strip s) = py_lower (py_strip t) \<and>
         (\<forall>j<i. \<forall>s'. cols ! j = Some s' \<longrightarrow> py_lower (py_strip s') \<noteq> py_lower (py_strip t))))"
  using find_col_None_iff [of cols t] find_col_Some_iff [of cols t s] by blast

theorem find_col_first_match_witness:
  "find_col [Some ''Customer ID'', Some '' customer id ''] '' CUSTOMER ID'' = Some ''Customer ID'' \<and>
   find_col [Some ''Customer ID'', Some '' customer id ''] ''Email'' = None"
proof -
  let ?cols = "[Some ''Customer ID'', Some '' customer id '']"
  have first: "\<exists>i<length ?cols. ?cols ! i = Some ''Customer ID'' \<and>
      py_lower (py_strip ''Customer ID'') = py_lower (py_strip '' CUSTOMER ID'') \<and>
      (\<forall>j<i. \<forall>s'. ?cols ! j = Some s' \<longrightarrow>
         py_lower (py_strip s') \<noteq> py_lower (py_strip '' CUSTOMER ID''))"
    by (intro exI[of _ 0]) (simp add: string_defs)
  have none: "\<forall>s. Some s \<in> set ?cols \<longrightarrow> py_lower (py_strip s) \<noteq> py_lower (py_strip ''Email'')"
    by (simp add: string_defs)
  from find_col_first_match [of ?cols "'' CUSTOMER ID''" "''Customer ID''"] first
  have a: "find_col ?cols '' CUSTOMER ID'' = Some ''Customer ID''" by blast
  from find_col_first_match [of ?cols "''Email''" "''x''"] none
  have b: "find_col ?cols ''Email'' = None" by blast
  from a b show ?thesis by simp
qed

section \<open>Keeping first occurrences\<close>

lemma keep_first_filter_key:
  "filter (\<lambda>x. key x = k) (keep_first key seen rs) =
     (if k \<in> set seen then []
      else case List.find (\<lambda>x. key x = k) rs of None \<Rightarrow> [] | Some r \<Rightarrow> [r])"
proof (induction rs arbitrary: seen)
  case Nil
  show ?case by simp
next
  case (Cons r rs)
  show ?case
  proof (cases "key r \<in> set seen")
    case True
    then show ?thesis using Cons.IH [of seen] by auto
  next
    case False
    then show ?thesis using Cons.IH [of "key r # seen"] by auto
  qed
qed

lemma keep_first_set: "set (keep_first key seen rs) \<subseteq> set rs"
  by (induction rs arbitrary: seen) auto

lemma keep_first_keys:
  "key ` set (keep_first key seen rs) = key ` set rs - set seen"
  by (induction rs arbitrary: seen) auto

lemma keep_first_not_seen:
  "r \<in> set (keep_first key seen rs) \<Longrightarrow> key r \<notin> set seen"
  using keep_first_keys [of key seen rs] by blast

lemma keep_first_distinct: "distinct (map key (keep_first key seen rs))"
proof (induction rs arbitrary: seen)
  case Nil
  show ?case by simp
next
  case (Cons r rs)
  show ?case
  proof (cases "key r \<in> set seen")
    case True
    then show ?thesis using Cons.IH by simp
  next
    case False
    have "key r \<notin> key ` set (keep_first key (key r # seen) rs)"
    proof
      assume "key r \<in> key ` set (keep_first key (key r # seen) rs)"
      then obtain x where x: "x \<in> set (keep_first key (key r # seen) rs)" "key x = key r"
        by auto
      from keep_first_not_seen [OF x(1)] x(2) show False by simp
    qed
    with False show ?thesis using Cons.IH by simp
  qed
qed

lemma keep_first_length: "length (keep_first key seen rs) \<le> length rs"
  by (induction rs arbitrary: seen) (auto simp: le_SucI)

lemma keep_first_id_when_distinct:
  "distinct (map key rs) \<Longrightarrow> set (map key rs) \<inter> set seen = {} \<Longrightarrow> keep_first key seen rs = rs"
  by (induction rs arbitrary: seen) auto

section \<open>Frames\<close>

lemma cell_at_Nil [simp]: "cell_at cs [] c = NaN"
  by (simp add: cell_at_def)

lemma cell_at_Cons [simp]: "cell_at (c' # cs) (x # xs) c = (if c' = c then x else cell_at cs xs c)"
  by (simp add: cell_at_def)

lemma cell_at_map: "cell_at cs (map f cs) c = (if c \<in> set cs then f c else NaN)"
  by (simp add: cell_at_def map_of_zip_map)

lemma cell_at_absent: "c \<notin> set cs \<Longrightarrow> cell_at cs r c = NaN"
proof -
  assume "c \<notin> set cs"
  then have "map_of (zip cs r) c = None"
    by (auto simp: map_of_eq_None_iff dest: set_zip_leftD)
  then show ?thesis by (simp add: cell_at_def)
qed

lemma cell_at_append: "c \<in> set cs \<Longrightarrow> cell_at (cs @ xs) r c = cell_at cs r c"
proof (induction cs arbitrary: r)
  case Nil
  then show ?case by simp
next
  case (Cons a cs)
  then show ?case by (cases r) auto
qed

lemma length_assign [simp]: "length (assign n v cs r) = length cs"
  by (induction cs arbitrary: r) auto

lemma cell_at_assign:
  "cell_at cs (assign n v cs r) c =
     (if c \<in> set cs then (if c = n then v else cell_at cs r c) else NaN)"
proof (induction cs arbitrary: r)
  case Nil
  show ?case by simp
next
  case (Cons a cs)
  show ?case
  proof (cases r)
    case Nil
    then show ?thesis using Cons.IH [of "[]"] by auto
  next
    case (Cons x xs)
    then show ?thesis using Cons.IH [of xs] by auto
  qed
qed

lemma picked_none: "\<forall>c \<in> set cs. \<not> P c \<Longrightarrow> picked P cs r = []"
  by (induction cs arbitrary: r) auto

lemma picked_single:
  "distinct cs \<Longrightarrow> n \<in> set cs \<Longrightarrow> picked (\<lambda>c. c = n) cs r = [cell_at cs r n]"
proof (induction cs arbitrary: r)
  case Nil
  then show ?case by simp
next
  case (Cons a cs)
  show ?case
  proof (cases "a = n")
    case True
    with Cons.prems have "\<forall>c \<in> set cs. \<not> c = n" by auto
    then have "picked (\<lambda>c. c = n) cs (tl r) = []" by (rule picked_none)
    with True show ?thesis by (cases r) simp_all
  next
    case False
    with Cons.prems have "distinct cs" "n \<in> set cs" by auto
    from Cons.IH [OF this, of "tl r"] False show ?thesis by (cases r) simp_all
  qed
qed

lemma picked_all:
  "distinct cs \<Longrightarrow> \<forall>c \<in> set cs. P c \<Longrightarrow> picked P cs r = map (cell_at cs r) cs"
proof (induction cs arbitrary: r)
  case Nil
  show ?case by simp
next
  case (Cons a cs)
  from Cons.prems have d: "distinct cs" and p: "\<forall>c \<in> set cs. P c" and a: "a \<notin> set cs" "P a"
    by auto
  have "map (cell_at (a # cs) r) cs = map (cell_at cs (tl r)) cs"
    using a(1) by (cases r) (auto intro!: map_cong)
  with Cons.IH [OF d p, of "tl r"] a(2) show ?case by (cases r) simp_all
qed

lemma picked_cong: "\<forall>c \<in> set cs. P c = Q c \<Longrightarrow> picked P cs r = picked Q cs r"
  by (induction cs arbitrary: r) auto

lemma count_list_distinct: "distinct xs \<Longrightarrow> x \<in> set xs \<Longrightarrow> count_list xs x = 1"
  by (induction xs) (auto simp: count_list_0_iff)

lemma filter_eq_distinct: "distinct xs \<Longrightarrow> x \<in> set xs \<Longrightarrow> filter (\<lambda>c. c = x) xs = [x]"
proof (induction xs)
  case Nil
  then show ?case by simp
next
  case (Cons a xs)
  show ?case
  proof (cases "a = x")
    case True
    with Cons.prems have "\<forall>c \<in> set xs. \<not> c = x" by auto
    then have "filter (\<lambda>c. c = x) xs = []" by (simp add: filter_empty_conv)
    with True show ?thesis by simp
  next
    case False
    with Cons show ?thesis by auto
  qed
qed

lemma length_column [simp]: "length (column df c) = length (rows df)"
  by (simp add: column_def)

lemma series_column:
  "distinct (columns df) \<Longrightarrow> n \<in> set (columns df) \<Longrightarrow> series df n e = Inr (column df n)"
  by (simp add: series_def getitem_def column_def count_list_distinct)

lemma columns_setitem:
  "columns (setitem df n vs) = (if n \<in> set (columns df) then columns df else columns df @ [n])"
  by (simp add: setitem_def Let_def)

lemma distinct_setitem: "distinct (columns df) \<Longrightarrow> distinct (columns (setitem df n vs))"
  by (simp add: columns_setitem)

lemma rows_setitem_length:
  "length vs = length (rows df) \<Longrightarrow> length (rows (setitem df n vs)) = length (rows df)"
  by (simp add: setitem_def Let_def)

lemma column_setitem:
  assumes "length vs = length (rows df)"
  shows "column (setitem df n vs) c = (if c = n then vs else column df c)"
proof -
  let ?cols' = "if n \<in> set (columns df) then columns df else columns df @ [n]"
  have cell: "\<And>r v. cell_at ?cols' (assign n v ?cols' r) c = (if c = n then v else cell_at (columns df) r c)"
  proof -
    fix r v
    show "cell_at ?cols' (assign n v ?cols' r) c = (if c = n then v else cell_at (columns df) r c)"
    proof (cases "c \<in> set (columns df)")
      case True
      then show ?thesis by (auto simp: cell_at_assign cell_at_append)
    next
      case False
      then show ?thesis by (auto simp: cell_at_assign cell_at_absent)
    qed
  qed
  have "column (setitem df n vs) c =
        map (\<lambda>(r, v). if c = n then v else cell_at (columns df) r c) (zip (rows df) vs)"
    using cell by (simp add: column_def setitem_def Let_def split_def)
  also have "\<dots> = (if c = n then vs else column df c)"
  proof (cases "c = n")
    case True
    have "map (\<lambda>(r, v). v) (zip (rows df) vs) = map snd (zip (rows df) vs)"
      by (simp add: split_def)
    with True assms show ?thesis by (simp add: map_snd_zip)
  next
    case False
    have "map (\<lambda>(r, v). cell_at (columns df) r c) (zip (rows df) vs) =
          map (\<lambda>r. cell_at (columns df) r c) (map fst (zip (rows df) vs))"
      by (simp add: split_def comp_def)
    with False assms show ?thesis by (simp add: column_def map_fst_zip)
  qed
  finally show ?thesis .
qed

lemma select_ok:
  assumes "distinct (columns df)" and "set names \<subseteq> set (columns df)"
  shows "select df names = Inr \<lparr>columns = names, rows = row_view df names\<rparr>"
proof -
  from assms(2) have f: "filter (\<lambda>n. n \<notin> set (columns df)) names = []"
    by (auto simp: filter_empty_conv)
  have c: "concat (map (\<lambda>n. filter (\<lambda>c. c = n) (columns df)) names) = names"
    using assms(2)
  proof (induction names)
    case Nil
    show ?case by simp
  next
    case (Cons a names)
    then show ?case using filter_eq_distinct [OF assms(1), of a] by simp
  qed
  have r: "\<And>r. concat (map (\<lambda>n. picked (\<lambda>c. c = n) (columns df) r) names) =
                map (cell_at (columns df) r) names"
    using assms(2)
  proof (induction names)
    case Nil
    show ?case by simp
  next
    case (Cons a names)
    then show ?case using picked_single [OF assms(1), of a] by simp
  qed
  show ?thesis by (simp add: select_def f c r row_view_def)
qed

lemma drop_duplicates_ok:
  assumes "distinct (columns df)" and "k \<in> set (columns df)"
  shows "drop_duplicates df (Some [k]) =
         Inr (df\<lparr>rows := keep_first (\<lambda>r. [cell_at (columns df) r k]) [] (rows df)\<rparr>)"
proof -
  from assms(2) have f: "filter (\<lambda>n. n \<notin> set (columns df)) [k] = []" by simp
  have "picked (\<lambda>c. c \<in> set [k]) (columns df) = (\<lambda>r. [cell_at (columns df) r k])"
    using picked_single [OF assms] by (intro ext) simp
  then show ?thesis using assms(2) by (simp add: drop_duplicates_def)
qed

lemma drop_duplicates_all:
  assumes "distinct (columns df)"
  shows "drop_duplicates df None =
         Inr (df\<lparr>rows := keep_first (\<lambda>r. map (cell_at (columns df) r) (columns df)) [] (rows df)\<rparr>)"
proof -
  have f: "filter (\<lambda>n. n \<notin> set (columns df)) (columns df) = []"
    by (auto simp: filter_empty_conv)
  have "picked (\<lambda>c. c \<in> set (columns df)) (columns df) = (\<lambda>r. map (cell_at (columns df) r) (columns df))"
    using picked_all [OF assms, of "\<lambda>c. c \<in> set (columns df)"] by (intro ext) simp
  then show ?thesis by (simp add: drop_duplicates_def f Let_def)
qed

lemma dropna_ok:
  assumes "distinct (columns df)" and "k \<in> set (columns df)"
  shows "dropna df [k] =
         Inr (df\<lparr>rows := filter (\<lambda>r. \<not> isna (cell_at (columns df) r k)) (rows df)\<rparr>)"
proof -
  have "\<And>r. picked (\<lambda>c. c \<in> set [k]) (columns df) r = [cell_at (columns df) r k]"
    using picked_single [OF assms] by simp
  then show ?thesis using assms(2) by (simp add: dropna_def)
qed

lemma row_view_cong:
  assumes "length (rows df) = length (rows df')"
    and "\<forall>n \<in> set names. column df n = column df' n"
  shows "row_view df names = row_view df' names"
proof (rule nth_equalityI)
  show "length (row_view df names) = length (row_view df' names)"
    using assms(1) by (simp add: row_view_def)
next
  fix i assume i: "i < length (row_view df names)"
  then have i1: "i < length (rows df)" and i2: "i < length (rows df')"
    using assms(1) by (simp_all add: row_view_def)
  have "\<And>n. n \<in> set names \<Longrightarrow> cell_at (columns df) (rows df ! i) n = cell_at (columns df') (rows df' ! i) n"
  proof -
    fix n assume "n \<in> set names"
    with assms(2) have "column df n ! i = column df' n ! i" by simp
    with i1 i2 show "cell_at (columns df) (rows df ! i) n = cell_at (columns df') (rows df' ! i) n"
      by (simp add: column_def)
  qed
  with i1 i2 show "row_view df names ! i = row_view df' names ! i"
    by (simp add: row_view_def)
qed

section \<open>The coercion loops\<close>

lemma find_col_key:
  "find_col cols t = Some a \<Longrightarrow> py_lower (py_strip a) = py_lower (py_strip t)"
  using find_col_Some_iff [of cols t a] by blast

lemma find_col_mem: "find_col cols t = Some a \<Longrightarrow> Some a \<in> set cols"
  using find_col_Some_iff [of cols t a] by (metis nth_mem)

lemma find_col_in_columns: "find_col (map Some xs) t = Some a \<Longrightarrow> a \<in> set xs"
  using find_col_mem [of "map Some xs" t a] by auto

lemma find_col_distinct_targets:
  "find_col cols t = Some a \<Longrightarrow> find_col cols t' = Some a' \<Longrightarrow>
   py_lower (py_strip t) \<noteq> py_lower (py_strip t') \<Longrightarrow> a \<noteq> a'"
  using find_col_key by metis

lemma length_to_datetime [simp]: "length (to_datetime L col) = length col"
  by (simp add: to_datetime_def)

lemma length_numeric_coerce [simp]: "length (numeric_coerce L col) = length col"
  by (simp add: numeric_coerce_def to_numeric_def str_replace_non_numeric_def astype_str_def)

lemma resolved_Cons_skip:
  "find_col cols t = None \<or> find_col cols t = Some [] \<Longrightarrow> resolved cols (t # ts) = resolved cols ts"
  by (auto simp: resolved_def)

lemma resolved_Cons_hit:
  "find_col cols t = Some a \<Longrightarrow> a \<noteq> [] \<Longrightarrow> resolved cols (t # ts) = insert a (resolved cols ts)"
  by (auto simp: resolved_def)

lemma resolved_fresh:
  assumes "find_col cols t = Some a"
    and "py_lower (py_strip t) \<notin> set (map (\<lambda>t. py_lower (py_strip t)) ts)"
  shows "a \<notin> resolved cols ts"
proof
  assume "a \<in> resolved cols ts"
  then obtain t' where t': "t' \<in> set ts" "find_col cols t' = Some a"
    by (auto simp: resolved_def)
  from find_col_key [OF assms(1)] find_col_key [OF t'(2)]
  have "py_lower (py_strip t) = py_lower (py_strip t')" by simp
  with t'(1) assms(2) show False by auto
qed

lemma coerce_dates_ok:
  assumes "\<forall>t a. find_col cols t = Some a \<longrightarrow> a \<in> set (columns df)"
    and "distinct (map (\<lambda>t. py_lower (py_strip t)) dcs)"
    and "distinct (columns df)"
  shows "\<exists>df'. coerce_dates L cols dcs df = Inr df' \<and> columns df' = columns df \<and>
           length (rows df') = length (rows df) \<and>
           (\<forall>c. column df' c =
              (if c \<in> resolved cols dcs then to_datetime L (column df c) else column df c))"
  using assms
proof (induction dcs arbitrary: df)
  case Nil
  show ?case by (simp add: resolved_def)
next
  case (Cons dc dcs)
  from Cons.prems(2) have dist: "distinct (map (\<lambda>t. py_lower (py_strip t)) dcs)"
    and fresh: "py_lower (py_strip dc) \<notin> set (map (\<lambda>t. py_lower (py_strip t)) dcs)"
    by simp_all
  show ?case
  proof (cases "\<exists>a. find_col cols dc = Some a \<and> a \<noteq> []")
    case False
    then have skip: "find_col cols dc = None \<or> find_col cols dc = Some []"
      by (cases "find_col cols dc") auto
    then have "coerce_dates L cols (dc # dcs) df = coerce_dates L cols dcs df"
      by auto
    with Cons.IH [OF Cons.prems(1) dist Cons.prems(3)] resolved_Cons_skip [OF skip] show ?thesis
      by simp
  next
    case True
    then obtain a where a: "find_col cols dc = Some a" "a \<noteq> []" by blast
    with Cons.prems(1) have mem: "a \<in> set (columns df)" by blast
    let ?df1 = "setitem df a (to_datetime L (column df a))"
    have cols1: "columns ?df1 = columns df" using mem by (simp add: columns_setitem)
    have len1: "length (rows ?df1) = length (rows df)" by (simp add: rows_setitem_length)
    have col1: "\<And>c. column ?df1 c = (if c = a then to_datetime L (column df a) else column df c)"
      by (simp add: column_setitem)
    have step: "coerce_dates L cols (dc # dcs) df = coerce_dates L cols dcs ?df1"
      using a mem Cons.prems(3) by (simp add: series_column)
    from Cons.prems(1) cols1 have p1: "\<forall>t a. find_col cols t = Some a \<longrightarrow> a \<in> set (columns ?df1)"
      by simp
    have d1: "distinct (columns ?df1)" using cols1 Cons.prems(3) by simp
    from Cons.IH [OF p1 dist d1] obtain df' where df':
      "coerce_dates L cols dcs ?df1 = Inr df'" "columns df' = columns ?df1"
      "length (rows df') = length (rows ?df1)"
      "\<forall>c. column df' c = (if c \<in> resolved cols dcs then to_datetime L (column ?df1 c) else column ?df1 c)"
      by blast
    have nres: "a \<notin> resolved cols dcs" using resolved_fresh [OF a(1) fresh] .
    have "\<forall>c. column df' c =
            (if c \<in> resolved cols (dc # dcs) then to_datetime L (column df c) else column df c)"
      using df'(4) col1 nres resolved_Cons_hit [OF a] by auto
    with step df'(1,2,3) cols1 len1 show ?thesis by simp
  qed
qed

lemma coerce_numerics_ok:
  assumes "\<forall>t a. find_col cols t = Some a \<longrightarrow> a \<in> set (columns df)"
    and "distinct (map (\<lambda>t. py_lower (py_strip t)) ncs)"
    and "distinct (columns df)"
  shows "\<exists>df'. coerce_numerics L cols ncs df = Inr df' \<and> columns df' = columns df \<and>
           length (rows df') = length (rows df) \<and>
           (\<forall>c. column df' c =
              (if c \<in> resolved cols ncs then numeric_coerce L (column df c) else column df c))"
  using assms
proof (induction ncs arbitrary: df)
  case Nil
  show ?case by (simp add: resolved_def)
next
  case (Cons nc ncs)
  from Cons.prems(2) have dist: "distinct (map (\<lambda>t. py_lower (py_strip t)) ncs)"
    and fresh: "py_lower (py_strip nc) \<notin> set (map (\<lambda>t. py_lower (py_strip t)) ncs)"
    by simp_all
  show ?case
  proof (cases "\<exists>a. find_col cols nc = Some a \<and> a \<noteq> []")
    case False
    then have skip: "find_col cols nc = None \<or> find_col cols nc = Some []"
      by (cases "find_col cols nc") auto
    then have "coerce_numerics L cols (nc # ncs) df = coerce_numerics L cols ncs df"
      by auto
    with Cons.IH [OF Cons.prems(1) dist Cons.prems(3)] resolved_Cons_skip [OF skip] show ?thesis
      by simp
  next
    case True
    then obtain a where a: "find_col cols nc = Some a" "a \<noteq> []" by blast
    with Cons.prems(1) have mem: "a \<in> set (columns df)" by blast
    let ?df1 = "setitem df a (numeric_coerce L (column df a))"
    have cols1: "columns ?df1 = columns df" using mem by (simp add: columns_setitem)
    have len1: "length (rows ?df1) = length (rows df)" by (simp add: rows_setitem_length)
    have col1: "\<And>c. column ?df1 c = (if c = a then numeric_coerce L (column df a) else column df c)"
      by (simp add: column_setitem)
    have step: "coerce_numerics L cols (nc # ncs) df = coerce_numerics L cols ncs ?df1"
      using a mem Cons.prems(3) by (simp add: series_column numeric_coerce_def)
    from Cons.prems(1) cols1 have p1: "\<forall>t a. find_col cols t = Some a \<longrightarrow> a \<in> set (columns ?df1)"
      by simp
    have d1: "distinct (columns ?df1)" using cols1 Cons.prems(3) by simp
    from Cons.IH [OF p1 dist d1] obtain df' where df':
      "coerce_numerics L cols ncs ?df1 = Inr df'" "columns df' = columns ?df1"
      "length (rows df') = length (rows ?df1)"
      "\<forall>c. column df' c = (if c \<in> resolved cols ncs then numeric_coerce L (column ?df1 c) else column ?df1 c)"
      by blast
    have nres: "a \<notin> resolved cols ncs" using resolved_fresh [OF a(1) fresh] .
    have "\<forall>c. column df' c =
            (if c \<in> resolved cols (nc # ncs) then numeric_coerce L (column df c) else column df c)"
      using df'(4) col1 nres resolved_Cons_hit [OF a] by auto
    with step df'(1,2,3) cols1 len1 show ?thesis by simp
  qed
qed

lemma date_cols_distinct: "distinct (map (\<lambda>t. py_lower (py_strip t)) date_cols)"
  by (simp add: date_cols_def string_defs)

lemma numeric_cols_distinct: "distinct (map (\<lambda>t. py_lower (py_strip t)) numeric_cols)"
  by (simp add: numeric_cols_def string_defs)

section \<open>The account identifier column\<close>

lemma length_astype_str [simp]: "length (astype_str L col) = length col"
  by (simp add: astype_str_def)

lemma length_acct_type_values [simp]: "length (acct_type_values df a) = length (rows df)"
  by (simp add: acct_type_values_def split: option.splits)

lemma length_open_date_strs [simp]: "length (open_date_strs L df d) = length (rows df)"
  by (simp add: open_date_strs_def split: option.splits)

lemma traverse_ok: "\<forall>x \<in> set xs. f x = Inr (g x) \<Longrightarrow> traverse f xs = Inr (map g xs)"
  by (induction xs) auto

lemma map_rows_nth:
  assumes "length xs = length (rows df)"
    and "\<And>i. i < length (rows df) \<Longrightarrow> xs ! i = f (rows df ! i)"
  shows "map f (rows df) = xs"
  using assms by (intro nth_equalityI) auto

lemma with_account_id_ok:
  assumes cust: "cust \<in> set (columns df)" "cust \<notin> helper_names"
    and at: "\<forall>a. acct_type_col = Some a \<longrightarrow> a \<in> set (columns df) \<and> a \<notin> helper_names"
    and od: "\<forall>d. open_date_col = Some d \<longrightarrow> d \<in> set (columns df) \<and> d \<notin> helper_names"
    and rows: "rows df \<noteq> []"
    and dist: "distinct (columns df)"
  shows "\<exists>df'. with_account_id L cust acct_type_col open_date_col df = Inr df' \<and>
           set (columns df) \<subseteq> set (columns df') \<and> ''AccountID'' \<in> set (columns df') \<and>
           distinct (columns df') \<and>
           length (rows df') = length (rows df) \<and>
           (\<forall>c. c \<notin> helper_names \<longrightarrow> column df' c = column df c) \<and>
           column df' ''AccountID'' =
             map Str (account_ids L (astype_str L (column df cust)) (acct_type_values df acct_type_col)
                        (open_date_strs L df open_date_col))"
proof -
  let ?ods = "open_date_strs L df open_date_col"
  let ?d1 = "setitem df ''__account_open_date_str'' (map Str ?ods)"
  let ?cs = "astype_str L (column df cust)"
  let ?d2 = "setitem ?d1 ''__customer_id_str'' (map Str ?cs)"
  let ?ats = "acct_type_values df acct_type_col"
  let ?ids = "account_ids L ?cs ?ats ?ods"
  let ?d3 = "setitem ?d2 ''AccountID'' (map Str ?ids)"
  have ods: "(case open_date_col of
                None \<Rightarrow> Inr (replicate (length (rows df)) [])
              | Some d \<Rightarrow>
                  if d \<noteq> [] then
                    bind_result
                      (series df d
                         (ValueError ''Cannot set a DataFrame with multiple columns to the single column __account_open_date_str''))
                      (\<lambda>col. Inr (astype_str L col))
                  else Inr (replicate (length (rows df)) [])) = Inr ?ods"
    using od dist by (auto simp: open_date_strs_def bind_result_def series_column split: option.splits)
  have dist1: "distinct (columns ?d1)" using dist by (rule distinct_setitem)
  have dist2: "distinct (columns ?d2)" using dist1 by (rule distinct_setitem)
  have sub1: "set (columns df) \<subseteq> set (columns ?d1)" by (auto simp: columns_setitem)
  have len1: "length (rows ?d1) = length (rows df)" by (simp add: rows_setitem_length)
  have col1: "\<And>c. column ?d1 c = (if c = ''__account_open_date_str'' then map Str ?ods else column df c)"
    by (simp add: column_setitem)
  have cust1: "cust \<in> set (columns ?d1)" using cust(1) sub1 by blast
  have cne: "cust \<noteq> ''__account_open_date_str''" "cust \<noteq> ''__customer_id_str''"
    using cust(2) by (auto simp: helper_names_def)
  have ccol1: "column ?d1 cust = column df cust" using col1 cne by simp
  have sub2: "set (columns ?d1) \<subseteq> set (columns ?d2)" by (auto simp: columns_setitem)
  have len2: "length (rows ?d2) = length (rows df)" using len1 by (simp add: rows_setitem_length)
  have col2: "\<And>c. column ?d2 c = (if c = ''__customer_id_str'' then map Str ?cs else column ?d1 c)"
    using len1 by (simp add: column_setitem)
  have in2: "''__customer_id_str'' \<in> set (columns ?d2)" "''__account_open_date_str'' \<in> set (columns ?d2)"
    by (auto simp: columns_setitem)
  have rows2: "rows ?d2 \<noteq> []" using len2 rows by auto
  let ?g = "\<lambda>r. make_account_id L (cell_at (columns ?d2) r ''__customer_id_str'')
              (case acct_type_col of
                 None \<Rightarrow> Str []
               | Some a \<Rightarrow> if a \<noteq> [] then cell_at (columns ?d2) r a else Str [])
              (cell_at (columns ?d2) r ''__account_open_date_str'')"
  have row: "\<forall>r \<in> set (rows ?d2). account_id_row L acct_type_col (columns ?d2) r = Inr (?g r)"
  proof
    fix r assume "r \<in> set (rows ?d2)"
    have "\<And>a. acct_type_col = Some a \<Longrightarrow> a \<in> set (columns ?d2)"
      using at sub1 sub2 by blast
    then show "account_id_row L acct_type_col (columns ?d2) r = Inr (?g r)"
      using in2 dist2
      by (auto simp: account_id_row_def row_getitem_def bind_result_def count_list_distinct
          split: option.splits)
  qed
  have ids: "map ?g (rows ?d2) = ?ids"
  proof (rule map_rows_nth)
    show "length ?ids = length (rows ?d2)" using len2 by (simp add: account_ids_def)
  next
    fix i assume i: "i < length (rows ?d2)"
    then have i0: "i < length (rows df)" using len2 by simp
    have c1: "cell_at (columns ?d2) (rows ?d2 ! i) ''__customer_id_str'' = Str (?cs ! i)"
    proof -
      have "column ?d2 ''__customer_id_str'' ! i = Str (?cs ! i)"
        using col2 i0 by simp
      then show ?thesis using i by (simp add: column_def)
    qed
    have c2: "cell_at (columns ?d2) (rows ?d2 ! i) ''__account_open_date_str'' = Str (?ods ! i)"
    proof -
      have "column ?d2 ''__account_open_date_str'' ! i = Str (?ods ! i)"
        using col2 col1 i0 by simp
      then show ?thesis using i by (simp add: column_def)
    qed
    have c3: "(case acct_type_col of
                 None \<Rightarrow> Str []
               | Some a \<Rightarrow> if a \<noteq> [] then cell_at (columns ?d2) (rows ?d2 ! i) a else Str []) = ?ats ! i"
    proof (cases acct_type_col)
      case None
      then show ?thesis using i0 by (simp add: acct_type_values_def)
    next
      case (Some a)
      show ?thesis
      proof (cases "a = []")
        case True
        with Some show ?thesis using i0 by (simp add: acct_type_values_def)
      next
        case False
        from at Some have "a \<notin> helper_names" by blast
        then have "column ?d2 a = column df a"
          using col2 col1 by (auto simp: helper_names_def)
        then have "column ?d2 a ! i = column df a ! i" by simp
        then have "cell_at (columns ?d2) (rows ?d2 ! i) a = column df a ! i"
          using i by (simp add: column_def)
        with Some False show ?thesis by (simp add: acct_type_values_def)
      qed
    qed
    have "?ids ! i = make_account_id L (Str (?cs ! i)) (?ats ! i) (Str (?ods ! i))"
      using i0 by (simp add: account_ids_def)
    with c1 c2 c3 show "?ids ! i = ?g (rows ?d2 ! i)" by simp
  qed
  have set3: "set_account_id L acct_type_col ?d2 = Inr ?d3"
    using rows2 traverse_ok [of "rows ?d2" "account_id_row L acct_type_col (columns ?d2)" ?g, OF row] ids
    by (simp add: set_account_id_def bind_result_def)
  have whole: "with_account_id L cust acct_type_col open_date_col df = Inr ?d3"
    unfolding with_account_id_def ods
    using cust1 ccol1 set3 dist1 by (simp add: bind_result_def series_column Let_def)
  have lids: "length (map Str ?ids) = length (rows ?d2)" using len2 by (simp add: account_ids_def)
  have col3: "\<And>c. column ?d3 c = (if c = ''AccountID'' then map Str ?ids else column ?d2 c)"
    using column_setitem [OF lids] by simp
  have len3: "length (rows ?d3) = length (rows df)"
    using rows_setitem_length [OF lids] len2 by simp
  have sub3: "set (columns ?d2) \<subseteq> set (columns ?d3)" "''AccountID'' \<in> set (columns ?d3)"
    by (auto simp: columns_setitem)
  have frame: "\<forall>c. c \<notin> helper_names \<longrightarrow> column ?d3 c = column df c"
    using col3 col2 col1 by (auto simp: helper_names_def)
  show ?thesis
    using whole sub1 sub2 sub3 len3 frame col3 distinct_setitem [OF dist2]
    by (intro exI[of _ ?d3]) auto
qed

section \<open>The tables in closed form\<close>

lemma not_none_set: "set (not_none xs) = {a. Some a \<in> set xs}"
  by (induction xs) (auto split: option.splits)


lemma keep_first_map:
  "keep_first key seen (map g rs) = map g (keep_first (\<lambda>r. key (g r)) seen rs)"
  by (induction rs arbitrary: seen) auto

lemma keep_first_cong:
  "(\<And>r. r \<in> set rs \<Longrightarrow> key r = key' r) \<Longrightarrow> keep_first key seen rs = keep_first key' seen rs"
  by (induction rs arbitrary: seen) auto

lemma cell_at_project:
  "k \<in> set names \<Longrightarrow> cell_at names (project df names r) k = cell_at (columns df) r k"
  by (simp add: project_def cell_at_map)

lemma row_view_project: "row_view df names = map (project df names) (rows df)"
  by (simp add: row_view_def project_def)

lemma dedup_row_view:
  assumes "set ks \<subseteq> set names"
  shows "keep_first (\<lambda>r. map (cell_at names r) ks) [] (row_view df names) =
         map (project df names) (keep_first (project df ks) [] (rows df))"
proof -
  have "\<And>r. map (cell_at names (project df names r)) ks = project df ks r"
  proof -
    fix r
    have "map (cell_at names (project df names r)) ks = map (cell_at (columns df) r) ks"
      using assms by (intro map_cong) (auto simp: cell_at_project)
    then show "map (cell_at names (project df names r)) ks = project df ks r"
      by (simp add: project_def)
  qed
  then show ?thesis by (simp add: row_view_project keep_first_map)
qed

lemma pipeline_some:
  assumes "distinct (columns df)" and "set names \<subseteq> set (columns df)"
    and "distinct names" and "k \<in> set names"
  shows "bind_result (select df names) (\<lambda>t.
           bind_result (drop_duplicates t (Some [k])) (\<lambda>t. Inr (rename t m))) =
         Inr \<lparr>columns = renamed m names,
              rows = map (project df names) (keep_first (project df [k]) [] (rows df))\<rparr>"
proof -
  let ?t = "\<lparr>columns = names, rows = row_view df names\<rparr>"
  have sel: "select df names = Inr ?t" using assms(1,2) by (rule select_ok)
  have "drop_duplicates ?t (Some [k]) =
        Inr (?t\<lparr>rows := keep_first (\<lambda>r. [cell_at (columns ?t) r k]) [] (rows ?t)\<rparr>)"
    using assms(3,4) by (intro drop_duplicates_ok) simp_all
  moreover have "keep_first (\<lambda>r. [cell_at names r k]) [] (row_view df names) =
        map (project df names) (keep_first (project df [k]) [] (rows df))"
    using dedup_row_view [of "[k]" names df] assms(4) by simp
  ultimately show ?thesis
    by (simp add: sel bind_result_def rename_def renamed_def)
qed

lemma pipeline_none:
  assumes "distinct (columns df)" and "set names \<subseteq> set (columns df)" and "distinct names"
  shows "bind_result (select df names) (\<lambda>t.
           bind_result (drop_duplicates t None) (\<lambda>t. Inr (rename t m))) =
         Inr \<lparr>columns = renamed m names,
              rows = map (project df names) (keep_first (project df names) [] (rows df))\<rparr>"
proof -
  let ?t = "\<lparr>columns = names, rows = row_view df names\<rparr>"
  have sel: "select df names = Inr ?t" using assms(1,2) by (rule select_ok)
  have "drop_duplicates ?t None =
        Inr (?t\<lparr>rows := keep_first (\<lambda>r. map (cell_at (columns ?t) r) (columns ?t)) [] (rows ?t)\<rparr>)"
    using assms(3) by (intro drop_duplicates_all) simp
  moreover have "keep_first (\<lambda>r. map (cell_at names r) names) [] (row_view df names) =
        map (project df names) (keep_first (project df names) [] (rows df))"
    by (rule dedup_row_view) simp
  ultimately show ?thesis
    by (simp add: sel bind_result_def rename_def renamed_def)
qed

lemma prepared_key: "prepared c df \<Longrightarrow> c t = Some a \<Longrightarrow> py_lower (py_strip a) = py_lower (py_strip t)"
  by (simp add: prepared_def)

lemma prepared_mem: "prepared c df \<Longrightarrow> c t = Some a \<Longrightarrow> a \<in> set (columns df)"
  by (simp add: prepared_def)

lemma prepared_distinct: "prepared c df \<Longrightarrow> distinct (columns df)"
  by (simp add: prepared_def)

lemma prepared_account_id: "prepared c df \<Longrightarrow> ''AccountID'' \<in> set (columns df)"
  by (simp add: prepared_def)

lemma key_empty: "py_lower (py_strip []) = []"
  by (simp add: string_defs)

lemma prepared_nonempty:
  "prepared c df \<Longrightarrow> c t = Some a \<Longrightarrow> py_lower (py_strip t) \<noteq> [] \<Longrightarrow> a \<noteq> []"
  using prepared_key key_empty by metis

lemma not_none_map_keys:
  assumes "\<forall>t a. c t = Some a \<longrightarrow> py_lower (py_strip a) = py_lower (py_strip t)"
    and "a \<in> set (not_none (map c ts))"
  shows "py_lower (py_strip a) \<in> set (map (\<lambda>t. py_lower (py_strip t)) ts)"
proof -
  from assms(2) obtain t where "t \<in> set ts" "c t = Some a"
    by (auto simp: not_none_set simp del: not_none.simps)
  with assms(1) show ?thesis by force
qed

lemma not_none_map_distinct:
  assumes "\<forall>t a. c t = Some a \<longrightarrow> py_lower (py_strip a) = py_lower (py_strip t)"
    and "distinct (map (\<lambda>t. py_lower (py_strip t)) ts)"
  shows "distinct (not_none (map c ts))"
  using assms(2)
proof (induction ts)
  case Nil
  show ?case by simp
next
  case (Cons t ts)
  then have d: "distinct (not_none (map c ts))"
    and f: "py_lower (py_strip t) \<notin> set (map (\<lambda>t. py_lower (py_strip t)) ts)" by simp_all
  show ?case
  proof (cases "c t")
    case None
    with d show ?thesis by simp
  next
    case (Some a)
    have "a \<notin> set (not_none (map c ts))"
    proof
      assume "a \<in> set (not_none (map c ts))"
      from not_none_map_keys [OF assms(1) this] assms(1) Some f show False by simp
    qed
    with d Some show ?thesis by simp
  qed
qed

lemma not_none_map_sub:
  "prepared c df \<Longrightarrow> set (not_none (map c ts)) \<subseteq> set (columns df)"
  by (auto simp: not_none_set prepared_def simp del: not_none.simps)

lemma not_none_append_if:
  "\<forall>a. x = Some a \<longrightarrow> a \<noteq> [] \<Longrightarrow> not_none (append_if x @ xs) = not_none (x # xs)"
  by (cases x) (simp_all add: append_if_def)

text \<open>The lists of logical columns behind the projections.\<close>

lemma customers_cols_eq:
  "c ''Customer ID'' = Some cust \<Longrightarrow>
   customers_cols c cust =
     not_none (map c [''Customer ID'', ''First Name'', ''Last Name'', ''Age'', ''Gender'',
                      ''Address'', ''City'', ''Contact Number'', ''Email''])"
  by (simp add: customers_cols_def)

lemma customers_cols_facts:
  assumes p: "prepared c df" and cust: "c ''Customer ID'' = Some cust"
  shows "distinct (customers_cols c cust)" and "set (customers_cols c cust) \<subseteq> set (columns df)"
    and "cust \<in> set (customers_cols c cust)"
proof -
  have k: "\<forall>t a. c t = Some a \<longrightarrow> py_lower (py_strip a) = py_lower (py_strip t)"
    using p by (simp add: prepared_def)
  show "distinct (customers_cols c cust)"
    unfolding customers_cols_eq [of c cust, OF cust]
    by (rule not_none_map_distinct [OF k]) (simp add: string_defs)
  show "set (customers_cols c cust) \<subseteq> set (columns df)"
    unfolding customers_cols_eq [of c cust, OF cust] using p by (rule not_none_map_sub)
  show "cust \<in> set (customers_cols c cust)" by (simp add: customers_cols_def)
qed

lemma account_id_fresh:
  assumes p: "prepared c df"
    and "''accountid'' \<notin> set (map (\<lambda>t. py_lower (py_strip t)) ts)"
  shows "''AccountID'' \<notin> set (not_none (map c ts))"
proof
  assume "''AccountID'' \<in> set (not_none (map c ts))"
  from not_none_map_keys [OF _ this] p assms(2) show False
    by (simp add: prepared_def string_defs)
qed

lemma accounts_cols_eq:
  "c ''Customer ID'' = Some cust \<Longrightarrow>
   accounts_cols c cust (c ''Account Type'') (c ''Date Of Account Opening'') =
     ''AccountID'' #
     not_none (map c [''Customer ID'', ''Account Type'', ''Account Balance'',
                      ''Date Of Account Opening'', ''Last Transaction Date'', ''Branch ID''])"
  by (simp add: accounts_cols_def)

lemma accounts_cols_facts:
  assumes p: "prepared c df" and cust: "c ''Customer ID'' = Some cust"
  shows "distinct (accounts_cols c cust (c ''Account Type'') (c ''Date Of Account Opening''))"
    and "set (accounts_cols c cust (c ''Account Type'') (c ''Date Of Account Opening''))
           \<subseteq> set (columns df)"
proof -
  let ?ts = "[''Customer ID'', ''Account Type'', ''Account Balance'',
              ''Date Of Account Opening'', ''Last Transaction Date'', ''Branch ID'']"
  have k: "\<forall>t a. c t = Some a \<longrightarrow> py_lower (py_strip a) = py_lower (py_strip t)"
    using p by (simp add: prepared_def)
  have d: "distinct (not_none (map c ?ts))"
    by (rule not_none_map_distinct [OF k]) (simp add: string_defs)
  have f: "''AccountID'' \<notin> set (not_none (map c ?ts))"
    by (rule account_id_fresh [OF p]) (simp add: string_defs)
  show "distinct (accounts_cols c cust (c ''Account Type'') (c ''Date Of Account Opening''))"
    unfolding accounts_cols_eq [of c cust, OF cust] using d f by simp
  show "set (accounts_cols c cust (c ''Account Type'') (c ''Date Of Account Opening''))
           \<subseteq> set (columns df)"
    unfolding accounts_cols_eq [of c cust, OF cust]
    using not_none_map_sub [OF p, of ?ts] prepared_account_id [OF p] by simp
qed

lemma id_col_nonempty:
  assumes p: "prepared c df" and "py_lower (py_strip t) \<noteq> []"
  shows "\<forall>a. c t = Some a \<longrightarrow> a \<noteq> []"
  using prepared_nonempty [OF p _ assms(2)] by blast

lemma loans_cols_eq:
  assumes p: "prepared c df" and cust: "c ''Customer ID'' = Some cust"
  shows "loans_cols c cust =
     not_none (map c [''Loan ID'', ''Customer ID'', ''Loan Amount'', ''Loan Type'', ''Interest Rate'',
                      ''Loan Term'', ''Approval/Rejection Date'', ''Loan Status'', ''Branch ID''])"
proof -
  have "\<forall>a. c ''Loan ID'' = Some a \<longrightarrow> a \<noteq> []"
    by (rule id_col_nonempty [OF p]) (simp add: string_defs)
  from not_none_append_if [OF this] cust show ?thesis
    by (simp add: loans_cols_def)
qed

lemma loans_cols_facts:
  assumes p: "prepared c df" and cust: "c ''Customer ID'' = Some cust"
  shows "distinct (loans_cols c cust)" and "set (loans_cols c cust) \<subseteq> set (columns df)"
proof -
  have k: "\<forall>t a. c t = Some a \<longrightarrow> py_lower (py_strip a) = py_lower (py_strip t)"
    using p by (simp add: prepared_def)
  show "distinct (loans_cols c cust)"
    unfolding loans_cols_eq [OF p cust]
    by (rule not_none_map_distinct [OF k]) (simp add: string_defs)
  show "set (loans_cols c cust) \<subseteq> set (columns df)"
    unfolding loans_cols_eq [OF p cust] using p by (rule not_none_map_sub)
qed

lemma cards_cols_eq:
  assumes p: "prepared c df" and cust: "c ''Customer ID'' = Some cust"
  shows "cards_cols c cust =
     not_none (map c [''CardID'', ''Customer ID'', ''Card Type'', ''Credit Limit'',
                      ''Credit Card Balance'', ''Minimum Payment Due'', ''Payment Due Date'',
                      ''Last Credit Card Payment Date'', ''Rewards Points''])"
proof -
  have "\<forall>a. c ''CardID'' = Some a \<longrightarrow> a \<noteq> []"
    by (rule id_col_nonempty [OF p]) (simp add: string_defs)
  from not_none_append_if [OF this] cust show ?thesis
    by (simp add: cards_cols_def)
qed

lemma cards_cols_facts:
  assumes p: "prepared c df" and cust: "c ''Customer ID'' = Some cust"
  shows "distinct (cards_cols c cust)" and "set (cards_cols c cust) \<subseteq> set (columns df)"
proof -
  have k: "\<forall>t a. c t = Some a \<longrightarrow> py_lower (py_strip a) = py_lower (py_strip t)"
    using p by (simp add: prepared_def)
  show "distinct (cards_cols c cust)"
    unfolding cards_cols_eq [OF p cust]
    by (rule not_none_map_distinct [OF k]) (simp add: string_defs)
  show "set (cards_cols c cust) \<subseteq> set (columns df)"
    unfolding cards_cols_eq [OF p cust] using p by (rule not_none_map_sub)
qed

lemma feedback_cols_eq:
  assumes p: "prepared c df" and cust: "c ''Customer ID'' = Some cust"
  shows "feedback_cols c cust =
     not_none (map c [''Feedback ID'', ''Customer ID'', ''Feedback Date'', ''Feedback Type'',
                      ''Resolution Status'', ''Resolution Date''])"
proof -
  have "\<forall>a. c ''Feedback ID'' = Some a \<longrightarrow> a \<noteq> []"
    by (rule id_col_nonempty [OF p]) (simp add: string_defs)
  from not_none_append_if [OF this] cust show ?thesis
    by (simp add: feedback_cols_def)
qed

lemma feedback_cols_facts:
  assumes p: "prepared c df" and cust: "c ''Customer ID'' = Some cust"
  shows "distinct (feedback_cols c cust)" and "set (feedback_cols c cust) \<subseteq> set (columns df)"
proof -
  have k: "\<forall>t a. c t = Some a \<longrightarrow> py_lower (py_strip a) = py_lower (py_strip t)"
    using p by (simp add: prepared_def)
  show "distinct (feedback_cols c cust)"
    unfolding feedback_cols_eq [OF p cust]
    by (rule not_none_map_distinct [OF k]) (simp add: string_defs)
  show "set (feedback_cols c cust) \<subseteq> set (columns df)"
    unfolding feedback_cols_eq [OF p cust] using p by (rule not_none_map_sub)
qed

lemma customers_table_ok:
  assumes p: "prepared c df" and cust: "c ''Customer ID'' = Some cust"
  shows "customers_table c cust df =
         Inr \<lparr>columns = renamed (Map.empty(cust \<mapsto> ''CustomerID'')) (customers_cols c cust),
              rows = map (project df (customers_cols c cust)) (keep_first (project df [cust]) [] (rows df))\<rparr>"
  unfolding customers_table_def
  using prepared_distinct [OF p] customers_cols_facts(2,1,3) [OF p cust]
  by (rule pipeline_some)

lemma accounts_table_ok:
  assumes p: "prepared c df" and cust: "c ''Customer ID'' = Some cust"
  shows "accounts_table c cust (c ''Account Type'') (c ''Date Of Account Opening'') df =
         Inr \<lparr>columns = renamed (rename_map c cust (c ''Account Type'') (c ''Date Of Account Opening''))
                          (accounts_cols c cust (c ''Account Type'') (c ''Date Of Account Opening'')),
              rows = map (project df (accounts_cols c cust (c ''Account Type'') (c ''Date Of Account Opening'')))
                       (keep_first (project df [''AccountID'']) [] (rows df))\<rparr>"
proof -
  have "''AccountID'' \<in> set (accounts_cols c cust (c ''Account Type'') (c ''Date Of Account Opening''))"
    by (simp add: accounts_cols_def)
  with prepared_distinct [OF p] accounts_cols_facts(2,1) [OF p cust] show ?thesis
    unfolding accounts_table_def by (rule pipeline_some)
qed

lemma subset_if_cases:
  "(subset_if col = None \<and> append_if col = []) \<or>
   (\<exists>a. a \<noteq> [] \<and> col = Some a \<and> subset_if col = Some [a] \<and> append_if col = [Some a])"
  by (auto simp: subset_if_def append_if_def split: option.splits)

lemma loans_table_ok:
  assumes p: "prepared c df" and cust: "c ''Customer ID'' = Some cust"
  shows "loans_table c cust df =
         Inr \<lparr>columns = renamed (loan_rename c cust) (loans_cols c cust),
              rows = map (project df (loans_cols c cust))
                       (keep_first (project df (case subset_if (c ''Loan ID'') of
                                                   None \<Rightarrow> loans_cols c cust | Some ks \<Rightarrow> ks)) []
                          (rows df))\<rparr>"
proof -
  note f = prepared_distinct [OF p] loans_cols_facts(2,1) [OF p cust]
  from subset_if_cases [of "c ''Loan ID''"] show ?thesis
  proof (elim disjE exE conjE)
    assume "subset_if (c ''Loan ID'') = None"
    then show ?thesis
      unfolding loans_table_def using pipeline_none [OF f] by simp
  next
    fix a assume a: "subset_if (c ''Loan ID'') = Some [a]" "append_if (c ''Loan ID'') = [Some a]"
    then have "a \<in> set (loans_cols c cust)" by (simp add: loans_cols_def)
    from pipeline_some [OF f this] a(1) show ?thesis
      unfolding loans_table_def by simp
  qed
qed

lemma cards_table_ok:
  assumes p: "prepared c df" and cust: "c ''Customer ID'' = Some cust"
  shows "cards_table c cust df =
         Inr \<lparr>columns = renamed (card_rename c cust) (cards_cols c cust),
              rows = map (project df (cards_cols c cust))
                       (keep_first (project df (case subset_if (c ''CardID'') of
                                                   None \<Rightarrow> cards_cols c cust | Some ks \<Rightarrow> ks)) []
                          (rows df))\<rparr>"
proof -
  note f = prepared_distinct [OF p] cards_cols_facts(2,1) [OF p cust]
  from subset_if_cases [of "c ''CardID''"] show ?thesis
  proof (elim disjE exE conjE)
    assume "subset_if (c ''CardID'') = None"
    then show ?thesis
      unfolding cards_table_def using pipeline_none [OF f] by simp
  next
    fix a assume a: "subset_if (c ''CardID'') = Some [a]" "append_if (c ''CardID'') = [Some a]"
    then have "a \<in> set (cards_cols c cust)" by (simp add: cards_cols_def)
    from pipeline_some [OF f this] a(1) show ?thesis
      unfolding cards_table_def by simp
  qed
qed

lemma feedback_table_ok:
  assumes p: "prepared c df" and cust: "c ''Customer ID'' = Some cust"
  shows "feedback_table c cust df =
         Inr \<lparr>columns = renamed (fb_rename c cust) (feedback_cols c cust),
              rows = map (project df (feedback_cols c cust))
                       (keep_first (project df (case subset_if (c ''Feedback ID'') of
                                                   None \<Rightarrow> feedback_cols c cust | Some ks \<Rightarrow> ks)) []
                          (rows df))\<rparr>"
proof -
  note f = prepared_distinct [OF p] feedback_cols_facts(2,1) [OF p cust]
  from subset_if_cases [of "c ''Feedback ID''"] show ?thesis
  proof (elim disjE exE conjE)
    assume "subset_if (c ''Feedback ID'') = None"
    then show ?thesis
      unfolding feedback_table_def using pipeline_none [OF f] by simp
  next
    fix a assume a: "subset_if (c ''Feedback ID'') = Some [a]" "append_if (c ''Feedback ID'') = [Some a]"
    then have "a \<in> set (feedback_cols c cust)" by (simp add: feedback_cols_def)
    from pipeline_some [OF f this] a(1) show ?thesis
      unfolding feedback_table_def by simp
  qed
qed

lemma branches_table_ok:
  assumes "prepared c df"
  shows "branches_table c df =
         (case append_if (c ''Branch ID'') of
            Some b # _ \<Rightarrow>
              Inr \<lparr>columns = [''BranchID''],
                   rows = map (project df [b]) (keep_first (project df [b]) [] (rows df))\<rparr>
          | _ \<Rightarrow> Inr \<lparr>columns = [''BranchID''], rows = []\<rparr>)"
proof -
  from subset_if_cases [of "c ''Branch ID''"] show ?thesis
  proof (elim disjE exE conjE)
    assume "append_if (c ''Branch ID'') = []"
    then show ?thesis by (simp add: branches_table_def)
  next
    fix a assume a: "c ''Branch ID'' = Some a" "append_if (c ''Branch ID'') = [Some a]"
    with assms have "set [a] \<subseteq> set (columns df)" by (auto simp: prepared_def)
    from pipeline_none [OF prepared_distinct [OF assms] this] a(2) show ?thesis
      by (simp add: branches_table_def renamed_def)
  qed
qed

section \<open>Transactions and anomalies\<close>

lemma put_if_Some: "put_if col new m x = Some y \<Longrightarrow> y = new \<or> m x = Some y"
  by (auto simp: put_if_def split: option.splits if_splits)

lemma put_if_other': "col \<noteq> Some x \<Longrightarrow> put_if col new m x = m x"
  by (auto simp: put_if_def split: option.splits)

lemma put_if_hit: "x \<noteq> [] \<Longrightarrow> put_if (Some x) new m x = Some new"
  by (simp add: put_if_def)

lemma tx_rename_id:
  assumes p: "prepared c df" and tx: "c ''TransactionID'' = Some tx" "tx \<noteq> []"
  shows "tx_rename c tx = Some ''TransactionID''"
proof -
  have k: "py_lower (py_strip tx) = ''transactionid''"
    using prepared_key [OF p tx(1)] by (simp add: string_defs)
  have ne: "\<And>t. py_lower (py_strip t) \<noteq> ''transactionid'' \<Longrightarrow> c t \<noteq> Some tx"
    using prepared_key [OF p] k by metis
  have "c ''Branch ID'' \<noteq> Some tx" "c ''Account Balance After Transaction'' \<noteq> Some tx"
    "c ''Transaction Amount'' \<noteq> Some tx" "c ''Transaction Type'' \<noteq> Some tx"
    "c ''Transaction Date'' \<noteq> Some tx"
    by (rule ne, simp add: string_defs)+
  then show ?thesis
    using tx by (simp add: tx_rename_def put_if_other' put_if_hit)
qed

lemma tx_rest_not_id:
  assumes p: "prepared c df"
    and x: "x \<in> set (not_none [Some ''AccountID'', c ''Transaction Date'', c ''Transaction Type'',
                c ''Transaction Amount'', c ''Account Balance After Transaction'', c ''Branch ID''])"
  shows "x \<noteq> ''TransactionID''" and "c ''TransactionID'' \<noteq> Some x"
proof -
  from x have cases: "x = ''AccountID'' \<or> c ''Transaction Date'' = Some x \<or> c ''Transaction Type'' = Some x \<or>
      c ''Transaction Amount'' = Some x \<or> c ''Account Balance After Transaction'' = Some x \<or>
      c ''Branch ID'' = Some x"
    unfolding not_none_set by auto
  have kx: "py_lower (py_strip x) \<noteq> ''transactionid''"
    using cases
  proof (elim disjE)
    assume "x = ''AccountID''" then show ?thesis by (simp add: string_defs)
  next
    assume "c ''Transaction Date'' = Some x"
    from prepared_key [OF p this] show ?thesis by (simp add: string_defs)
  next
    assume "c ''Transaction Type'' = Some x"
    from prepared_key [OF p this] show ?thesis by (simp add: string_defs)
  next
    assume "c ''Transaction Amount'' = Some x"
    from prepared_key [OF p this] show ?thesis by (simp add: string_defs)
  next
    assume "c ''Account Balance After Transaction'' = Some x"
    from prepared_key [OF p this] show ?thesis by (simp add: string_defs)
  next
    assume "c ''Branch ID'' = Some x"
    from prepared_key [OF p this] show ?thesis by (simp add: string_defs)
  qed
  show "x \<noteq> ''TransactionID''"
  proof
    assume "x = ''TransactionID''"
    with kx show False by (simp add: string_defs)
  qed
  show "c ''TransactionID'' \<noteq> Some x"
  proof
    assume "c ''TransactionID'' = Some x"
    from prepared_key [OF p this] kx show False by (simp add: string_defs)
  qed
qed

lemma tx_rename_rest:
  assumes p: "prepared c df"
    and x: "x \<in> set (not_none [Some ''AccountID'', c ''Transaction Date'', c ''Transaction Type'',
                c ''Transaction Amount'', c ''Account Balance After Transaction'', c ''Branch ID''])"
  shows "(case tx_rename c x of Some n \<Rightarrow> n | None \<Rightarrow> x) \<noteq> ''TransactionID''"
proof (cases "tx_rename c x")
  case (Some y)
  let ?m0 = "put_if (c ''TransactionID'') ''TransactionID'' Map.empty"
  let ?m1 = "put_if (c ''Transaction Date'') ''TransactionDate'' ?m0"
  let ?m2 = "put_if (c ''Transaction Type'') ''TransactionType'' ?m1"
  let ?m3 = "put_if (c ''Transaction Amount'') ''TransactionAmount'' ?m2"
  let ?m4 = "put_if (c ''Account Balance After Transaction'') ''AccountBalanceAfterTransaction'' ?m3"
  have m0: "?m0 x = None" using put_if_other' [OF tx_rest_not_id(2) [OF p x]] by simp
  from Some have "y = ''BranchID'' \<or> ?m4 x = Some y"
    unfolding tx_rename_def by (rule put_if_Some)
  moreover have "?m4 x = Some y \<Longrightarrow> y = ''AccountBalanceAfterTransaction'' \<or> ?m3 x = Some y"
    by (rule put_if_Some)
  moreover have "?m3 x = Some y \<Longrightarrow> y = ''TransactionAmount'' \<or> ?m2 x = Some y"
    by (rule put_if_Some)
  moreover have "?m2 x = Some y \<Longrightarrow> y = ''TransactionType'' \<or> ?m1 x = Some y"
    by (rule put_if_Some)
  moreover have "?m1 x = Some y \<Longrightarrow> y = ''TransactionDate'' \<or> ?m0 x = Some y"
    by (rule put_if_Some)
  ultimately have "y = ''BranchID'' \<or> y = ''AccountBalanceAfterTransaction'' \<or>
      y = ''TransactionAmount'' \<or> y = ''TransactionType'' \<or> y = ''TransactionDate''"
    using m0 by fastforce
  then have "y \<noteq> ''TransactionID''" by auto
  with Some show ?thesis by simp
next
  case None
  with tx_rest_not_id(1) [OF p x] show ?thesis by simp
qed

lemma transactions_cols_facts:
  assumes p: "prepared c df"
  shows "distinct (transactions_cols c)" and "set (transactions_cols c) \<subseteq> set (columns df)"
proof -
  let ?ts = "[''Transaction Date'', ''Transaction Type'', ''Transaction Amount'',
              ''Account Balance After Transaction'', ''Branch ID'']"
  have k: "\<forall>t a. c t = Some a \<longrightarrow> py_lower (py_strip a) = py_lower (py_strip t)"
    using p by (simp add: prepared_def)
  have ne: "\<forall>a. c ''TransactionID'' = Some a \<longrightarrow> a \<noteq> []"
    by (rule id_col_nonempty [OF p]) (simp add: string_defs)
  have eq: "transactions_cols c = not_none (c ''TransactionID'' # Some ''AccountID'' # map c ?ts)"
    using not_none_append_if [OF ne] by (simp add: transactions_cols_def)
  have d: "distinct (not_none (map c (''TransactionID'' # ?ts)))"
    by (rule not_none_map_distinct [OF k]) (simp add: string_defs)
  have f: "''AccountID'' \<notin> set (not_none (map c (''TransactionID'' # ?ts)))"
    by (rule account_id_fresh [OF p]) (simp add: string_defs)
  show "distinct (transactions_cols c)"
    unfolding eq using d f by (cases "c ''TransactionID''") auto
  show "set (transactions_cols c) \<subseteq> set (columns df)"
    unfolding eq
    using not_none_map_sub [OF p, of "''TransactionID'' # ?ts"] prepared_account_id [OF p]
    by (cases "c ''TransactionID''") auto
qed

lemma picked_head:
  "P a \<Longrightarrow> \<forall>c \<in> set cs. \<not> P c \<Longrightarrow> picked P (a # cs) (v # vs) = [v]"
  by (simp add: picked_none)

lemma transactions_table_ok:
  assumes p: "prepared c df"
  shows "transactions_table c df =
         Inr \<lparr>columns = renamed (tx_rename c) (transactions_cols c),
              rows = map (project df (transactions_cols c))
                       (case subset_if (c ''TransactionID'') of
                          None \<Rightarrow> rows df
                        | Some ks \<Rightarrow> keep_first (project df ks) [] (rows df))\<rparr>"
proof -
  let ?names = "transactions_cols c"
  define rest where "rest = not_none [Some ''AccountID'', c ''Transaction Date'', c ''Transaction Type'',
                c ''Transaction Amount'', c ''Account Balance After Transaction'', c ''Branch ID'']"
  have sel: "select df ?names = Inr \<lparr>columns = ?names, rows = row_view df ?names\<rparr>"
    using prepared_distinct [OF p] transactions_cols_facts(2) [OF p] by (rule select_ok)
  have rest_no: "''TransactionID'' \<notin> set (renamed (tx_rename c) rest)"
  proof
    assume "''TransactionID'' \<in> set (renamed (tx_rename c) rest)"
    then obtain x where x: "x \<in> set rest"
      and e: "''TransactionID'' = (case tx_rename c x of None \<Rightarrow> x | Some n \<Rightarrow> n)"
      unfolding renamed_def by auto
    from tx_rename_rest [OF p x [unfolded rest_def]] e show False by simp
  qed
  from subset_if_cases [of "c ''TransactionID''"] show ?thesis
  proof (elim disjE exE conjE)
    assume a: "subset_if (c ''TransactionID'') = None" "append_if (c ''TransactionID'') = []"
    have names: "?names = rest" using a(2) by (simp add: transactions_cols_def rest_def)
    have "''TransactionID'' \<notin> set (renamed (tx_rename c) ?names)"
      using rest_no names by simp
    then show ?thesis
      using a(1) by (simp add: transactions_table_def sel bind_result_def rename_def renamed_def
          row_view_project Let_def)
  next
    fix tx assume a: "tx \<noteq> []" "c ''TransactionID'' = Some tx"
      "subset_if (c ''TransactionID'') = Some [tx]" "append_if (c ''TransactionID'') = [Some tx]"
    define rcols where "rcols = ''TransactionID'' # renamed (tx_rename c) rest"
    have names: "?names = tx # rest"
      using a(4) by (simp add: transactions_cols_def rest_def)
    have ren: "renamed (tx_rename c) ?names = rcols"
      using tx_rename_id [OF p a(2) a(1)] by (simp add: names renamed_def rcols_def)
    let ?K = "picked (\<lambda>c. c \<in> set [''TransactionID'']) rcols"
    have key: "(\<lambda>r. ?K (project df ?names r)) = project df [tx]"
    proof (rule ext)
      fix r
      have "picked (\<lambda>c. c \<in> set [''TransactionID'']) (''TransactionID'' # renamed (tx_rename c) rest)
              (cell_at (columns df) r tx # map (cell_at (columns df) r) rest) =
            [cell_at (columns df) r tx]"
        using rest_no by (intro picked_head) auto
      then show "?K (project df ?names r) = project df [tx] r"
        by (simp add: names rcols_def project_def)
    qed
    have kf: "keep_first ?K [] (row_view df ?names) =
              map (project df ?names) (keep_first (\<lambda>r. ?K (project df ?names r)) [] (rows df))"
      unfolding row_view_project by (rule keep_first_map)
    have mem: "''TransactionID'' \<in> set rcols" by (simp add: rcols_def)
    have dd: "drop_duplicates \<lparr>columns = rcols, rows = row_view df ?names\<rparr> (Some [''TransactionID'']) =
        Inr \<lparr>columns = rcols,
             rows = map (project df ?names) (keep_first (project df [tx]) [] (rows df))\<rparr>"
      using mem kf key by (simp add: drop_duplicates_def)
    have ren': "map (\<lambda>c'. case tx_rename c c' of None \<Rightarrow> c' | Some n \<Rightarrow> n) ?names = rcols"
      using ren by (simp add: renamed_def)
    show ?thesis
      unfolding transactions_table_def sel bind_result_def
      using a(3) dd mem ren ren' by (simp add: rename_def Let_def)
  qed
qed

lemma anomalies_table_ok:
  assumes p: "prepared c df" and cust: "c ''Customer ID'' = Some cust"
  shows "anomalies_table c cust df =
         (case c ''Anomaly'' of
            None \<Rightarrow> Inr \<lparr>columns = [''CustomerID'', ''Anomaly''], rows = []\<rparr>
          | Some a \<Rightarrow>
              Inr \<lparr>columns = [''CustomerID'', ''Anomaly''],
                   rows = map (project df [cust, a])
                            (keep_first (project df [cust, a]) []
                               (filter (\<lambda>r. \<not> isna (cell_at (columns df) r a)) (rows df)))\<rparr>)"
proof (cases "c ''Anomaly''")
  case None
  then show ?thesis by (simp add: anomalies_table_def)
next
  case (Some a)
  have ne: "cust \<noteq> a"
  proof
    assume "cust = a"
    with prepared_key [OF p cust] prepared_key [OF p Some] show False
      by (simp add: string_defs)
  qed
  have mem: "a \<in> set (columns df)" "cust \<in> set (columns df)"
    using prepared_mem [OF p Some] prepared_mem [OF p cust] by simp_all
  let ?names = "[cust, a]"
  let ?t = "\<lparr>columns = ?names, rows = row_view df ?names\<rparr>"
  have sel: "select df ?names = Inr ?t"
    using prepared_distinct [OF p] mem by (intro select_ok) simp_all
  have dn0: "dropna ?t [a] =
      Inr (?t\<lparr>rows := filter (\<lambda>r. \<not> isna (cell_at (columns ?t) r a)) (rows ?t)\<rparr>)"
    using ne by (intro dropna_ok) simp_all
  have flt: "filter (\<lambda>r. \<not> isna (cell_at ?names r a)) (row_view df ?names) =
             map (project df ?names) (filter (\<lambda>r. \<not> isna (cell_at (columns df) r a)) (rows df))"
    by (simp add: row_view_project filter_map comp_def cell_at_project)
  let ?t2 = "\<lparr>columns = ?names,
              rows = map (project df ?names) (filter (\<lambda>r. \<not> isna (cell_at (columns df) r a)) (rows df))\<rparr>"
  have dn: "dropna ?t [a] = Inr ?t2"
    using dn0 flt by simp
  have key: "\<And>r. map (cell_at ?names (project df ?names r)) ?names = project df ?names r"
    using ne by (simp add: project_def)
  have dd0: "drop_duplicates ?t2 None =
      Inr (?t2\<lparr>rows := keep_first (\<lambda>r. map (cell_at (columns ?t2) r) (columns ?t2)) [] (rows ?t2)\<rparr>)"
    using ne by (intro drop_duplicates_all) simp
  have dd: "drop_duplicates ?t2 None =
        Inr \<lparr>columns = ?names,
             rows = map (project df ?names)
                      (keep_first (project df ?names) []
                         (filter (\<lambda>r. \<not> isna (cell_at (columns df) r a)) (rows df)))\<rparr>"
    using key dd0 by (simp add: keep_first_map)
  show ?thesis
    using Some mem(1) ne
    by (simp add: anomalies_table_def sel dn dd bind_result_def rename_def)
qed

section \<open>The frame after the coercions and the account identifier\<close>

lemma resolved_key:
  "a \<in> resolved cols ts \<Longrightarrow> py_lower (py_strip a) \<in> set (map (\<lambda>t. py_lower (py_strip t)) ts)"
  by (auto simp: resolved_def dest: find_col_key)

lemma date_keys:
  "map (\<lambda>t. py_lower (py_strip t)) date_cols =
     [''date of account opening'', ''last transaction date'', ''transaction date'',
      ''approval/rejection date'', ''payment due date'', ''last credit card payment date'',
      ''feedback date'']"
  by (simp add: date_cols_def string_defs)

lemma numeric_keys:
  "map (\<lambda>t. py_lower (py_strip t)) numeric_cols =
     [''account balance'', ''transaction amount'', ''account balance after transaction'',
      ''loan amount'', ''interest rate'', ''credit limit'', ''credit card balance'',
      ''minimum payment due'', ''rewards points'']"
  by (simp add: numeric_cols_def string_defs)

lemma helper_keys:
  "a \<in> helper_names \<Longrightarrow>
   py_lower (py_strip a) \<in> {''__account_open_date_str'', ''__customer_id_str'', ''accountid''}"
  by (auto simp: helper_names_def string_defs)

lemma resolved_disjoint: "resolved cols date_cols \<inter> resolved cols numeric_cols = {}"
proof (rule ccontr)
  assume "resolved cols date_cols \<inter> resolved cols numeric_cols \<noteq> {}"
  then obtain a where "a \<in> resolved cols date_cols" "a \<in> resolved cols numeric_cols" by blast
  then have "py_lower (py_strip a) \<in> set (map (\<lambda>t. py_lower (py_strip t)) date_cols)"
    "py_lower (py_strip a) \<in> set (map (\<lambda>t. py_lower (py_strip t)) numeric_cols)"
    using resolved_key by blast+
  then show False unfolding date_keys numeric_keys by auto
qed

lemma stages_ok:
  assumes cust: "find_col (map Some (columns df0)) ''Customer ID'' = Some cust"
    and rows: "rows df0 \<noteq> []"
    and dist: "distinct (columns df0)"
  shows "\<exists>df2 df.
           bind_result (coerce_dates L (map Some (columns df0)) date_cols df0)
             (coerce_numerics L (map Some (columns df0)) numeric_cols) = Inr df2 \<and>
           columns df2 = columns df0 \<and> length (rows df2) = length (rows df0) \<and>
           (\<forall>n. column df2 n = coerced L df0 n) \<and>
           with_account_id L cust (find_col (map Some (columns df0)) ''Account Type'')
             (find_col (map Some (columns df0)) ''Date Of Account Opening'') df2 = Inr df \<and>
           prepared (find_col (map Some (columns df0))) df \<and>
           length (rows df) = length (rows df0) \<and>
           (\<forall>n. n \<notin> helper_names \<longrightarrow> column df n = coerced L df0 n) \<and>
           column df ''AccountID'' =
             map Str (account_ids L (astype_str L (column df2 cust))
                        (acct_type_values df2 (find_col (map Some (columns df0)) ''Account Type''))
                        (open_date_strs L df2 (find_col (map Some (columns df0)) ''Date Of Account Opening'')))"
proof -
  let ?cols = "map Some (columns df0)"
  let ?c = "find_col ?cols"
  have res0: "\<forall>t a. ?c t = Some a \<longrightarrow> a \<in> set (columns df0)"
    using find_col_in_columns by blast
  from coerce_dates_ok [OF res0 date_cols_distinct dist, of L] obtain df1 where df1:
    "coerce_dates L ?cols date_cols df0 = Inr df1" "columns df1 = columns df0"
    "length (rows df1) = length (rows df0)"
    "\<forall>c. column df1 c = (if c \<in> resolved ?cols date_cols then to_datetime L (column df0 c) else column df0 c)"
    by blast
  have res1: "\<forall>t a. ?c t = Some a \<longrightarrow> a \<in> set (columns df1)"
    using res0 df1(2) by simp
  have dist1: "distinct (columns df1)" using dist df1(2) by simp
  from coerce_numerics_ok [OF res1 numeric_cols_distinct dist1, of L] obtain df2 where df2:
    "coerce_numerics L ?cols numeric_cols df1 = Inr df2" "columns df2 = columns df1"
    "length (rows df2) = length (rows df1)"
    "\<forall>c. column df2 c = (if c \<in> resolved ?cols numeric_cols then numeric_coerce L (column df1 c) else column df1 c)"
    by blast
  have dist2: "distinct (columns df2)" using dist1 df2(2) by simp
  have col2: "\<forall>n. column df2 n = coerced L df0 n"
  proof
    fix n
    show "column df2 n = coerced L df0 n"
      using df2(4) df1(4) resolved_disjoint [of ?cols] by (auto simp: coerced_def)
  qed
  have nh: "\<And>t a. ?c t = Some a \<Longrightarrow>
      py_lower (py_strip t) \<notin> {''__account_open_date_str'', ''__customer_id_str'', ''accountid''} \<Longrightarrow>
      a \<notin> helper_names"
    using helper_keys find_col_key by metis
  have c1: "cust \<in> set (columns df2)" using res0 cust df1(2) df2(2) by simp
  have c2: "cust \<notin> helper_names" by (rule nh [OF cust]) (simp add: string_defs)
  have at: "\<forall>a. ?c ''Account Type'' = Some a \<longrightarrow> a \<in> set (columns df2) \<and> a \<notin> helper_names"
  proof (intro allI impI conjI)
    fix a assume a: "?c ''Account Type'' = Some a"
    show "a \<in> set (columns df2)" using res0 a df1(2) df2(2) by simp
    show "a \<notin> helper_names" by (rule nh [OF a]) (simp add: string_defs)
  qed
  have od: "\<forall>d. ?c ''Date Of Account Opening'' = Some d \<longrightarrow> d \<in> set (columns df2) \<and> d \<notin> helper_names"
  proof (intro allI impI conjI)
    fix d assume d: "?c ''Date Of Account Opening'' = Some d"
    show "d \<in> set (columns df2)" using res0 d df1(2) df2(2) by simp
    show "d \<notin> helper_names" by (rule nh [OF d]) (simp add: string_defs)
  qed
  have r2: "rows df2 \<noteq> []" using rows df1(3) df2(3) by auto
  from with_account_id_ok [OF c1 c2 at od r2 dist2, of L] obtain df where df:
    "with_account_id L cust (?c ''Account Type'') (?c ''Date Of Account Opening'') df2 = Inr df"
    "set (columns df2) \<subseteq> set (columns df)" "''AccountID'' \<in> set (columns df)"
    "distinct (columns df)"
    "length (rows df) = length (rows df2)"
    "\<forall>c. c \<notin> helper_names \<longrightarrow> column df c = column df2 c"
    "column df ''AccountID'' =
       map Str (account_ids L (astype_str L (column df2 cust)) (acct_type_values df2 (?c ''Account Type''))
                  (open_date_strs L df2 (?c ''Date Of Account Opening'')))"
    by blast
  have prep: "prepared ?c df"
    unfolding prepared_def using res0 df(2,3,4) df1(2) df2(2) find_col_key by auto
  show ?thesis
    using df1(1,2,3) df2(1,2,3) col2 df(1,5,6,7) prep
    by (intro exI[of _ df2] exI[of _ df]) (simp add: bind_result_def)
qed

section \<open>The transform as a whole\<close>

lemma bind_result_InrE:
  assumes "bind_result m f = Inr y"
  obtains x where "m = Inr x" and "f x = Inr y"
  using assms by (cases m) (simp_all add: bind_result_def)

lemma bind_result_Inl: "m = Inl e \<Longrightarrow> bind_result m f = Inl e"
  by (simp add: bind_result_def)



lemma build_ok:
  assumes cust: "find_col (map Some (columns df0)) ''Customer ID'' = Some cust"
    and rows: "rows df0 \<noteq> []"
    and dist: "distinct (columns df0)"
  shows "\<exists>df2 df ct act tt lt cdt ft bt ant.
           columns df2 = columns df0 \<and> length (rows df2) = length (rows df0) \<and>
           (\<forall>n. column df2 n = coerced L df0 n) \<and>
           prepared (find_col (map Some (columns df0))) df \<and>
           length (rows df) = length (rows df0) \<and>
           (\<forall>n. n \<notin> helper_names \<longrightarrow> column df n = coerced L df0 n) \<and>
           column df ''AccountID'' =
             map Str (account_ids L (astype_str L (column df2 cust))
                        (acct_type_values df2 (find_col (map Some (columns df0)) ''Account Type''))
                        (open_date_strs L df2 (find_col (map Some (columns df0)) ''Date Of Account Opening''))) \<and>
           customers_table (find_col (map Some (columns df0))) cust df = Inr ct \<and>
           accounts_table (find_col (map Some (columns df0))) cust
             (find_col (map Some (columns df0)) ''Account Type'')
             (find_col (map Some (columns df0)) ''Date Of Account Opening'') df = Inr act \<and>
           transactions_table (find_col (map Some (columns df0))) df = Inr tt \<and>
           loans_table (find_col (map Some (columns df0))) cust df = Inr lt \<and>
           cards_table (find_col (map Some (columns df0))) cust df = Inr cdt \<and>
           feedback_table (find_col (map Some (columns df0))) cust df = Inr ft \<and>
           branches_table (find_col (map Some (columns df0))) df = Inr bt \<and>
           anomalies_table (find_col (map Some (columns df0))) cust df = Inr ant \<and>
           build_relational_sheets L df0 =
             Inr [(''Customers'', ct), (''Accounts'', act), (''Transactions'', tt), (''Loans'', lt),
                  (''Cards'', cdt), (''Feedback'', ft), (''Branches'', bt), (''Anomalies'', ant),
                  (''DataDictionary'', data_dictionary)]"
proof -
  let ?c = "find_col (map Some (columns df0))"
  from stages_ok [OF cust rows dist, of L] obtain df2 df where s:
    "bind_result (coerce_dates L (map Some (columns df0)) date_cols df0)
             (coerce_numerics L (map Some (columns df0)) numeric_cols) = Inr df2"
    "columns df2 = columns df0" "length (rows df2) = length (rows df0)"
    "\<forall>n. column df2 n = coerced L df0 n"
    "with_account_id L cust (?c ''Account Type'') (?c ''Date Of Account Opening'') df2 = Inr df"
    "prepared ?c df" "length (rows df) = length (rows df0)"
    "\<forall>n. n \<notin> helper_names \<longrightarrow> column df n = coerced L df0 n"
    "column df ''AccountID'' =
             map Str (account_ids L (astype_str L (column df2 cust))
                        (acct_type_values df2 (?c ''Account Type''))
                        (open_date_strs L df2 (?c ''Date Of Account Opening'')))"
    by blast
  obtain ct where ct: "customers_table ?c cust df = Inr ct"
    using customers_table_ok [OF s(6) cust] by blast
  obtain act where act: "accounts_table ?c cust (?c ''Account Type'') (?c ''Date Of Account Opening'') df = Inr act"
    using accounts_table_ok [OF s(6) cust] by blast
  obtain tt where tt: "transactions_table ?c df = Inr tt"
    using transactions_table_ok [OF s(6)] by blast
  obtain lt where lt: "loans_table ?c cust df = Inr lt"
    using loans_table_ok [OF s(6) cust] by blast
  obtain cdt where cdt: "cards_table ?c cust df = Inr cdt"
    using cards_table_ok [OF s(6) cust] by blast
  obtain ft where ft: "feedback_table ?c cust df = Inr ft"
    using feedback_table_ok [OF s(6) cust] by blast
  obtain bt where bt: "branches_table ?c df = Inr bt"
    using branches_table_ok [OF s(6)] by (auto split: list.splits option.splits)
  obtain ant where ant: "anomalies_table ?c cust df = Inr ant"
    using anomalies_table_ok [OF s(6) cust] by (auto split: option.splits)
  have dates: "\<exists>df1. coerce_dates L (map Some (columns df0)) date_cols df0 = Inr df1 \<and>
      coerce_numerics L (map Some (columns df0)) numeric_cols df1 = Inr df2"
    using s(1) by (cases "coerce_dates L (map Some (columns df0)) date_cols df0")
      (simp_all add: bind_result_def)
  then obtain df1 where d1: "coerce_dates L (map Some (columns df0)) date_cols df0 = Inr df1"
    "coerce_numerics L (map Some (columns df0)) numeric_cols df1 = Inr df2" by blast
  have b: "build_relational_sheets L df0 =
             Inr [(''Customers'', ct), (''Accounts'', act), (''Transactions'', tt), (''Loans'', lt),
                  (''Cards'', cdt), (''Feedback'', ft), (''Branches'', bt), (''Anomalies'', ant),
                  (''DataDictionary'', data_dictionary)]"
    unfolding build_relational_sheets_def Let_def
    by (simp add: d1 cust s(5) ct act tt lt cdt ft bt ant bind_result_def)
  show ?thesis
    using s(2,3,4,6,7,8,9) ct act tt lt cdt ft bt ant b by blast
qed

section \<open>The sheets in closed form\<close>

















section \<open>The data dictionary\<close>

lemma build_sheets_shape:
  assumes "build_relational_sheets L df = Inr sheets"
  shows "\<exists>ct act tt lt cdt ft bt ant.
           sheets = [(''Customers'', ct), (''Accounts'', act), (''Transactions'', tt), (''Loans'', lt),
                     (''Cards'', cdt), (''Feedback'', ft), (''Branches'', bt), (''Anomalies'', ant),
                     (''DataDictionary'', data_dictionary)]"
  using assms unfolding build_relational_sheets_def Let_def
  apply (elim bind_result_InrE)
  apply (cases "find_col (map Some (columns df)) ''Customer ID''")
   apply (simp only: option.case sum.distinct)
  apply (simp only: option.case)
  apply (elim bind_result_InrE)
  apply (simp only: sum.inject)
  apply blast
  done

lemma data_dictionary_value:
  "data_dictionary =
     \<lparr>columns = [''Table'', ''PrimaryKey'', ''Notes'', ''ForeignKeys''],
      rows =
        [[Str ''Customers'', Str ''CustomerID'', Str ''Customer master data'', NaN],
         [Str ''Accounts'', Str ''AccountID'', Str ''One or more accounts per customer'', Str ''CustomerID''],
         [Str ''Transactions'', Str ''TransactionID (may be null)'', Str ''Transaction records'',
          Str ''AccountID, BranchID''],
         [Str ''Loans'', Str ''LoanID'', Str ''Loan records if present'', Str ''CustomerID, BranchID''],
         [Str ''Cards'', Str ''CardID'', Str ''Credit card records'', Str ''CustomerID''],
         [Str ''Feedback'', Str ''FeedbackID'', Str ''Customer feedback'', Str ''CustomerID''],
         [Str ''Branches'', Str ''BranchID'', Str ''Branch identifiers'', NaN],
         [Str ''Anomalies'', Str [], Str ''Rows flagged as anomalies (if any)'', Str ''CustomerID'']]\<rparr>"
  by (simp add: data_dictionary_def from_records_def dd_rows_def)

text \<open>
  C9. Whenever the transform returns its sheets, the \<^verbatim>\<open>DataDictionary\<close> sheet is the constant
  frame \<open>data_dictionary\<close>, whatever the input and the library: it has 8 rows, one for each
  other sheet in sheet order, and building it is no step that can fail.
\<close>

theorem data_dictionary_constant:
  "build_relational_sheets L df = Inr sheets \<Longrightarrow>
   map_of sheets ''DataDictionary'' = Some data_dictionary \<and>
   length (rows data_dictionary) = 8 \<and>
   column data_dictionary ''Table'' = map Str (butlast (map fst sheets))"
proof -
  assume "build_relational_sheets L df = Inr sheets"
  from build_sheets_shape [OF this] obtain ct act tt lt cdt ft bt ant where
    s: "sheets = [(''Customers'', ct), (''Accounts'', act), (''Transactions'', tt), (''Loans'', lt),
                     (''Cards'', cdt), (''Feedback'', ft), (''Branches'', bt), (''Anomalies'', ant),
                     (''DataDictionary'', data_dictionary)]" by blast
  have 1: "map_of sheets ''DataDictionary'' = Some data_dictionary"
    unfolding s by simp
  have 2: "length (rows data_dictionary) = 8"
    unfolding data_dictionary_value by simp
  have 3: "column data_dictionary ''Table'' = map Str (butlast (map fst sheets))"
    unfolding s data_dictionary_value by (simp add: column_def cell_at_def)
  from 1 2 3 show ?thesis by simp
qed

theorem data_dictionary_constant_witness:
  "\<exists>sheets.
     build_relational_sheets \<lparr>sha1_hexdigest = (\<lambda>s. s), parse_datetime = (\<lambda>_ _. None), str_native = (\<lambda>_ _. [])\<rparr>
       \<lparr>columns = [''Customer ID''], rows = [[Str ''C1'']]\<rparr> = Inr sheets \<and>
     map_of sheets ''DataDictionary'' = Some data_dictionary \<and>
     length (rows data_dictionary) = 8 \<and>
     column data_dictionary ''Table'' = map Str (butlast (map fst sheets))"
proof -
  let ?L = "\<lparr>sha1_hexdigest = (\<lambda>s. s), parse_datetime = (\<lambda>_ _. None), str_native = (\<lambda>_ _. [])\<rparr>"
  let ?df = "\<lparr>columns = [''Customer ID''], rows = [[Str ''C1'']]\<rparr>"
  have c: "find_col (map Some (columns ?df)) ''Customer ID'' = Some ''Customer ID''"
    by (simp add: string_defs)
  have r: "rows ?df \<noteq> []" by simp
  have d: "distinct (columns ?df)" by simp
  from build_ok [OF c r d, of ?L] obtain sheets where b: "build_relational_sheets ?L ?df = Inr sheets"
    by blast
  from data_dictionary_constant [OF b] b show ?thesis by blast
qed

section \<open>The mandatory column\<close>









section \<open>The two coercions\<close>

lemma numeric_coerce_nth:
  "i < length col \<Longrightarrow>
   numeric_coerce L col ! i =
     (case to_double (filter keeps_numeric (astype_str L col ! i)) of
        Some x \<Rightarrow> Num x
      | None \<Rightarrow> NaN)"
  by (simp add: numeric_coerce_def to_numeric_def str_replace_non_numeric_def astype_str_def)

lemma astype_str_nth:
  "i < length col \<Longrightarrow>
   astype_str L col ! i =
     (case col ! i of Str s \<Rightarrow> s | NaN \<Rightarrow> ''nan'' | NaT \<Rightarrow> ''NaT'' | v \<Rightarrow> str_native L col v)"
  by (simp add: astype_str_def split: cell.splits)

lemma keeps_numeric_chars: "keeps_numeric c \<longleftrightarrow> c \<in> set ''0123456789.-eE''"
proof -
  have m: "map char_of [48, 49, 50, 51, 52, 53, 54, 55, 56, 57 :: nat] = ''0123456789''"
    by code_simp
  have "is_digit c \<longleftrightarrow> c \<in> set ''0123456789''"
  proof
    assume "is_digit c"
    then have "of_char c \<in> {48..(57::nat)}" by (simp add: is_digit_def Let_def)
    also have "{48..(57::nat)} = set [48, 49, 50, 51, 52, 53, 54, 55, 56, 57]" by auto presburger
    finally have "char_of (of_char c :: nat) \<in> set (map char_of [48, 49, 50, 51, 52, 53, 54, 55, 56, 57 :: nat])"
      unfolding set_map by (rule imageI)
    then show "c \<in> set ''0123456789''" unfolding m by simp
  next
    assume "c \<in> set ''0123456789''"
    then show "is_digit c" by (auto simp: is_digit_def)
  qed
  then show ?thesis by (auto simp: keeps_numeric_def)
qed

lemma to_double_empty: "to_double [] = None"
  by (simp add: to_double_def split_sign_def)

lemma numeric_loop:
  assumes "distinct (columns df)"
  shows "\<exists>df'. coerce_numerics L (map Some (columns df)) numeric_cols df = Inr df' \<and>
           columns df' = columns df \<and> length (rows df') = length (rows df) \<and>
           (\<forall>n. column df' n =
              (if n \<in> resolved (map Some (columns df)) numeric_cols
               then numeric_coerce L (column df n) else column df n))"
proof -
  have "\<forall>t a. find_col (map Some (columns df)) t = Some a \<longrightarrow> a \<in> set (columns df)"
    using find_col_in_columns by blast
  then show ?thesis using numeric_cols_distinct assms by (rule coerce_numerics_ok)
qed

lemma date_loop:
  assumes "distinct (columns df)"
  shows "\<exists>df'. coerce_dates L (map Some (columns df)) date_cols df = Inr df' \<and>
           columns df' = columns df \<and> length (rows df') = length (rows df) \<and>
           (\<forall>n. column df' n =
              (if n \<in> resolved (map Some (columns df)) date_cols
               then to_datetime L (column df n) else column df n))"
proof -
  have "\<forall>t a. find_col (map Some (columns df)) t = Some a \<longrightarrow> a \<in> set (columns df)"
    using find_col_in_columns by blast
  then show ?thesis using date_cols_distinct assms by (rule coerce_dates_ok)
qed

lemma to_datetime_idem: "to_datetime L' (to_datetime L col) = to_datetime L col"
  by (auto simp: to_datetime_def split: cell.splits option.splits)

lemma to_datetime_values: "v \<in> set (to_datetime L col) \<Longrightarrow> v = NaT \<or> (\<exists>t. v = Ts t)"
  by (auto simp: to_datetime_def split: cell.splits option.splits)

lemma to_datetime_nth:
  "i < length col \<Longrightarrow>
   to_datetime L col ! i =
     (case col ! i of
        Ts t \<Rightarrow> Ts t
      | NaT \<Rightarrow> NaT
      | NaN \<Rightarrow> NaT
      | v \<Rightarrow> (case parse_datetime L col v of Some t \<Rightarrow> Ts t | None \<Rightarrow> NaT))"
  by (simp add: to_datetime_def split: cell.splits)

text \<open>
  C5. On a frame with distinct labels the loop over \<open>numeric_cols\<close> raises nothing and
  replaces exactly the resolved numeric columns by \<open>numeric_coerce\<close> of them. In such a
  column the texts lose every character that is not a digit, a point, a minus sign,
  \<^verbatim>\<open>e\<close> or \<^verbatim>\<open>E\<close>, and the rest is parsed: the result is the number, or the missing value
  \<open>NaN\<close> when the parse fails, as it does on the empty text. A missing value stays missing.
\<close>

theorem numeric_coercion:
  "(distinct (columns df) \<longrightarrow>
      (\<exists>df'. coerce_numerics L (map Some (columns df)) numeric_cols df = Inr df' \<and>
         columns df' = columns df \<and> length (rows df') = length (rows df) \<and>
         (\<forall>n. column df' n =
            (if n \<in> resolved (map Some (columns df)) numeric_cols
             then numeric_coerce L (column df n) else column df n)))) \<and>
   length (numeric_coerce L col) = length col \<and>
   (\<forall>i s. i < length col \<and> col ! i = Str s \<longrightarrow>
      numeric_coerce L col ! i =
        (case to_double (filter keeps_numeric s) of Some x \<Rightarrow> Num x | None \<Rightarrow> NaN)) \<and>
   (\<forall>i. i < length col \<and> col ! i = NaN \<longrightarrow> numeric_coerce L col ! i = NaN) \<and>
   (\<forall>c. keeps_numeric c \<longleftrightarrow> c \<in> set ''0123456789.-eE'') \<and>
   to_double [] = None"
proof (intro conjI allI impI)
  assume "distinct (columns df)"
  then show "\<exists>df'. coerce_numerics L (map Some (columns df)) numeric_cols df = Inr df' \<and>
         columns df' = columns df \<and> length (rows df') = length (rows df) \<and>
         (\<forall>n. column df' n =
            (if n \<in> resolved (map Some (columns df)) numeric_cols
             then numeric_coerce L (column df n) else column df n))"
    by (rule numeric_loop)
next
  show "length (numeric_coerce L col) = length col" by simp
next
  fix i s assume "i < length col \<and> col ! i = Str s"
  then show "numeric_coerce L col ! i =
        (case to_double (filter keeps_numeric s) of Some x \<Rightarrow> Num x | None \<Rightarrow> NaN)"
    by (simp add: numeric_coerce_nth astype_str_nth)
next
  fix i assume "i < length col \<and> col ! i = NaN"
  then have "astype_str L col ! i = ''nan''" by (simp add: astype_str_nth)
  moreover have "to_double (filter keeps_numeric ''nan'') = None"
    by (simp add: keeps_numeric_def is_digit_def to_double_empty)
  ultimately show "numeric_coerce L col ! i = NaN"
    using \<open>i < length col \<and> col ! i = NaN\<close> by (simp add: numeric_coerce_nth)
next
  fix c show "keeps_numeric c \<longleftrightarrow> c \<in> set ''0123456789.-eE''" by (rule keeps_numeric_chars)
next
  show "to_double [] = None" by (rule to_double_empty)
qed

theorem numeric_coercion_witness:
  "numeric_coerce \<lparr>sha1_hexdigest = (\<lambda>s. s), parse_datetime = (\<lambda>_ _. None), str_native = (\<lambda>_ _. [])\<rparr>
     [Str ''$1,234.56'', Str ''abc'', Str [], NaN] ! 0 = Num (123456 / 100) \<and>
   numeric_coerce \<lparr>sha1_hexdigest = (\<lambda>s. s), parse_datetime = (\<lambda>_ _. None), str_native = (\<lambda>_ _. [])\<rparr>
     [Str ''$1,234.56'', Str ''abc'', Str [], NaN] ! 1 = NaN \<and>
   numeric_coerce \<lparr>sha1_hexdigest = (\<lambda>s. s), parse_datetime = (\<lambda>_ _. None), str_native = (\<lambda>_ _. [])\<rparr>
     [Str ''$1,234.56'', Str ''abc'', Str [], NaN] ! 2 = NaN \<and>
   numeric_coerce \<lparr>sha1_hexdigest = (\<lambda>s. s), parse_datetime = (\<lambda>_ _. None), str_native = (\<lambda>_ _. [])\<rparr>
     [Str ''$1,234.56'', Str ''abc'', Str [], NaN] ! 3 = NaN \<and>
   (\<exists>df'. coerce_numerics
            \<lparr>sha1_hexdigest = (\<lambda>s. s), parse_datetime = (\<lambda>_ _. None), str_native = (\<lambda>_ _. [])\<rparr>
            (map Some [''Customer ID'', ''Loan Amount'']) numeric_cols
            \<lparr>columns = [''Customer ID'', ''Loan Amount''], rows = [[Str ''C1'', Str ''$1,234.56'']]\<rparr> =
          Inr df' \<and>
          column df' ''Loan Amount'' = [Num (123456 / 100)] \<and>
          column df' ''Customer ID'' = [Str ''C1''])"
proof -
  let ?L = "\<lparr>sha1_hexdigest = (\<lambda>s. s), parse_datetime = (\<lambda>_ _. None), str_native = (\<lambda>_ _. [])\<rparr>"
  let ?col = "[Str ''$1,234.56'', Str ''abc'', Str [], NaN]"
  let ?df = "\<lparr>columns = [''Customer ID'', ''Loan Amount''], rows = [[Str ''C1'', Str ''$1,234.56'']]\<rparr>"
  note t = numeric_coercion [of ?df ?L ?col]
  note cell = t [THEN conjunct2, THEN conjunct2, THEN conjunct1, rule_format]
  note miss = t [THEN conjunct2, THEN conjunct2, THEN conjunct2, THEN conjunct1, rule_format]
  have v: "to_double (filter keeps_numeric ''$1,234.56'') = Some (123456 / 100)"
    by (simp add: keeps_numeric_def to_double_def split_sign_def is_digit_def digits_value_def)
  have w: "to_double (filter keeps_numeric ''abc'') = None"
    by (simp add: keeps_numeric_def is_digit_def to_double_empty)
  have r0: "numeric_coerce ?L ?col ! 0 = Num (123456 / 100)"
    using cell [of 0 "''$1,234.56''"] v by simp
  have r1: "numeric_coerce ?L ?col ! 1 = NaN"
    using cell [of 1 "''abc''"] w by simp
  have r2: "numeric_coerce ?L ?col ! 2 = NaN"
    using cell [of 2 "[]"] to_double_empty by simp
  have r3: "numeric_coerce ?L ?col ! 3 = NaN"
    using miss [of 3] by simp
  have d: "distinct (columns ?df)" by simp
  from t [THEN conjunct1, THEN mp, OF d] obtain df' where df':
    "coerce_numerics ?L (map Some (columns ?df)) numeric_cols ?df = Inr df'"
    "\<forall>n. column df' n =
         (if n \<in> resolved (map Some (columns ?df)) numeric_cols
          then numeric_coerce ?L (column ?df n) else column ?df n)"
    by (elim exE conjE)
  have in_res: "''Loan Amount'' \<in> resolved (map Some (columns ?df)) numeric_cols"
    by (simp add: resolved_def numeric_cols_def string_defs)
  have out_res: "''Customer ID'' \<notin> resolved (map Some (columns ?df)) numeric_cols"
    by (simp add: resolved_def numeric_cols_def string_defs)
  have nc: "numeric_coerce ?L [Str ''$1,234.56''] = [Num (123456 / 100)]"
    using v by (simp add: numeric_coerce_def to_numeric_def str_replace_non_numeric_def astype_str_def)
  have l: "column df' ''Loan Amount'' = [Num (123456 / 100)]"
    using df'(2) [rule_format, of "''Loan Amount''"] in_res nc by (simp add: column_def)
  have c: "column df' ''Customer ID'' = [Str ''C1'']"
    using df'(2) [rule_format, of "''Customer ID''"] out_res by (simp add: column_def)
  have e: "\<exists>df'. coerce_numerics ?L (map Some [''Customer ID'', ''Loan Amount'']) numeric_cols ?df = Inr df' \<and>
          column df' ''Loan Amount'' = [Num (123456 / 100)] \<and>
          column df' ''Customer ID'' = [Str ''C1'']"
    using df'(1) l c by (intro exI [of _ df']) simp
  show ?thesis
    by (rule conjI [OF r0 conjI [OF r1 conjI [OF r2 conjI [OF r3 e]]]])
qed

text \<open>
  C6. On a frame with distinct labels the loop over the seven names of \<open>date_cols\<close> raises
  nothing and replaces exactly the resolved date columns by \<open>to_datetime\<close> of them. The
  coercion of a column is total: every value of the result is a timestamp or the missing
  value \<open>NaT\<close>, and a text the parser rejects becomes \<open>NaT\<close>. Coercing a coerced column
  again changes no value.
\<close>

theorem date_coercion:
  "(distinct (columns df) \<longrightarrow>
      (\<exists>df'. coerce_dates L (map Some (columns df)) date_cols df = Inr df' \<and>
         columns df' = columns df \<and> length (rows df') = length (rows df) \<and>
         (\<forall>n. column df' n =
            (if n \<in> resolved (map Some (columns df)) date_cols
             then to_datetime L (column df n) else column df n)))) \<and>
   length date_cols = 7 \<and>
   to_datetime L (to_datetime L col) = to_datetime L col \<and>
   length (to_datetime L col) = length col \<and>
   (\<forall>v. v \<in> set (to_datetime L col) \<longrightarrow> v = NaT \<or> (\<exists>t. v = Ts t)) \<and>
   (\<forall>i s. i < length col \<and> col ! i = Str s \<and> parse_datetime L col (Str s) = None \<longrightarrow>
      to_datetime L col ! i = NaT) \<and>
   (\<forall>i s t. i < length col \<and> col ! i = Str s \<and> parse_datetime L col (Str s) = Some t \<longrightarrow>
      to_datetime L col ! i = Ts t)"
proof (intro conjI allI impI)
  assume "distinct (columns df)"
  then show "\<exists>df'. coerce_dates L (map Some (columns df)) date_cols df = Inr df' \<and>
         columns df' = columns df \<and> length (rows df') = length (rows df) \<and>
         (\<forall>n. column df' n =
            (if n \<in> resolved (map Some (columns df)) date_cols
             then to_datetime L (column df n) else column df n))"
    by (rule date_loop)
next
  show "length date_cols = 7" by (simp add: date_cols_def)
next
  show "to_datetime L (to_datetime L col) = to_datetime L col" by (rule to_datetime_idem)
next
  show "length (to_datetime L col) = length col" by simp
next
  fix v assume "v \<in> set (to_datetime L col)"
  then show "v = NaT \<or> (\<exists>t. v = Ts t)" by (rule to_datetime_values)
next
  fix i s assume "i < length col \<and> col ! i = Str s \<and> parse_datetime L col (Str s) = None"
  then show "to_datetime L col ! i = NaT" by (simp add: to_datetime_nth)
next
  fix i s t assume "i < length col \<and> col ! i = Str s \<and> parse_datetime L col (Str s) = Some t"
  then show "to_datetime L col ! i = Ts t" by (simp add: to_datetime_nth)
qed

theorem date_coercion_witness:
  "to_datetime \<lparr>sha1_hexdigest = (\<lambda>s. s), parse_datetime = (\<lambda>_ _. None), str_native = (\<lambda>_ _. [])\<rparr>
     [Str ''not a date'', NaN, Ts 5] ! 0 = NaT \<and>
   to_datetime \<lparr>sha1_hexdigest = (\<lambda>s. s), parse_datetime = (\<lambda>_ _. None), str_native = (\<lambda>_ _. [])\<rparr>
     (to_datetime \<lparr>sha1_hexdigest = (\<lambda>s. s), parse_datetime = (\<lambda>_ _. None), str_native = (\<lambda>_ _. [])\<rparr>
        [Str ''not a date'', NaN, Ts 5]) = [NaT, NaT, Ts 5] \<and>
   (\<exists>df'. coerce_dates
            \<lparr>sha1_hexdigest = (\<lambda>s. s), parse_datetime = (\<lambda>_ _. None), str_native = (\<lambda>_ _. [])\<rparr>
            (map Some [''Customer ID'', ''Feedback Date'']) date_cols
            \<lparr>columns = [''Customer ID'', ''Feedback Date''], rows = [[Str ''C1'', Str ''not a date'']]\<rparr> =
          Inr df' \<and>
          column df' ''Feedback Date'' = [NaT] \<and>
          column df' ''Customer ID'' = [Str ''C1''])"
proof -
  let ?L = "\<lparr>sha1_hexdigest = (\<lambda>s. s), parse_datetime = (\<lambda>_ _. None), str_native = (\<lambda>_ _. [])\<rparr>"
  let ?col = "[Str ''not a date'', NaN, Ts 5]"
  let ?df = "\<lparr>columns = [''Customer ID'', ''Feedback Date''], rows = [[Str ''C1'', Str ''not a date'']]\<rparr>"
  note t = date_coercion [of ?df ?L ?col]
  note idem = t [THEN conjunct2, THEN conjunct2, THEN conjunct1]
  note fail = t [THEN conjunct2, THEN conjunct2, THEN conjunct2, THEN conjunct2, THEN conjunct2,
      THEN conjunct1, rule_format]
  have r0: "to_datetime ?L ?col ! 0 = NaT"
    using fail [of 0 "''not a date''"] by simp
  have once: "to_datetime ?L ?col = [NaT, NaT, Ts 5]" by (simp add: to_datetime_def)
  have r1: "to_datetime ?L (to_datetime ?L ?col) = [NaT, NaT, Ts 5]"
    using idem once by simp
  have d: "distinct (columns ?df)" by simp
  from t [THEN conjunct1, THEN mp, OF d] obtain df' where df':
    "coerce_dates ?L (map Some (columns ?df)) date_cols ?df = Inr df'"
    "\<forall>n. column df' n =
         (if n \<in> resolved (map Some (columns ?df)) date_cols
          then to_datetime ?L (column ?df n) else column ?df n)"
    by (elim exE conjE)
  have in_res: "''Feedback Date'' \<in> resolved (map Some (columns ?df)) date_cols"
    by (simp add: resolved_def date_cols_def string_defs)
  have out_res: "''Customer ID'' \<notin> resolved (map Some (columns ?df)) date_cols"
    by (simp add: resolved_def date_cols_def string_defs)
  have l: "column df' ''Feedback Date'' = [NaT]"
    using df'(2) [rule_format, of "''Feedback Date''"] in_res by (simp add: column_def to_datetime_def)
  have c: "column df' ''Customer ID'' = [Str ''C1'']"
    using df'(2) [rule_format, of "''Customer ID''"] out_res by (simp add: column_def)
  have e: "\<exists>df'. coerce_dates ?L (map Some [''Customer ID'', ''Feedback Date'']) date_cols ?df = Inr df' \<and>
          column df' ''Feedback Date'' = [NaT] \<and>
          column df' ''Customer ID'' = [Str ''C1'']"
    using df'(1) l c by (intro exI [of _ df']) simp
  show ?thesis
    by (rule conjI [OF r0 conjI [OF r1 e]])
qed

end
